theory Spec2Isabelle
  imports Complex_Main
begin

section \<open>Numbers\<close>

text \<open>
  The program computes with numpy's double-precision floats.  The embedding idealises a
  finite float as a \<^typ>\<open>real\<close>: there is no rounding, and a finite result never overflows
  to an infinity or underflows to zero.  Every value that is not a finite number (\<open>nan\<close>,
  \<open>inf\<close>, \<open>-inf\<close>) is collapsed into \<open>None\<close>.  numpy does not raise on an invalid
  operation, it returns such a value (with a warning), so each operation below is total.
  An operation on a non-finite value yields a non-finite value here; on the machine a
  finite number divided by an infinity is zero, which can only happen after an overflow.
  The results that assert that a computed value is a finite number are therefore stated
  for parameters and redshifts of moderate size, for which no overflow occurs.
\<close>

type_synonym npfloat = "real option"

fun np_add :: "npfloat \<Rightarrow> npfloat \<Rightarrow> npfloat" where
  "np_add (Some x) (Some y) = Some (x + y)"
| "np_add _ _ = None"

fun np_sub :: "npfloat \<Rightarrow> npfloat \<Rightarrow> npfloat" where
  "np_sub (Some x) (Some y) = Some (x - y)"
| "np_sub _ _ = None"

fun np_mul :: "npfloat \<Rightarrow> npfloat \<Rightarrow> npfloat" where
  "np_mul (Some x) (Some y) = Some (x * y)"
| "np_mul _ _ = None"

text \<open>Division by zero gives \<open>inf\<close>, \<open>-inf\<close> or \<open>nan\<close>: not a finite number.\<close>

fun np_div :: "npfloat \<Rightarrow> npfloat \<Rightarrow> npfloat" where
  "np_div (Some x) (Some y) = (if y = 0 then None else Some (x / y))"
| "np_div _ _ = None"

text \<open>\<open>np.sqrt\<close> of a negative number is \<open>nan\<close>.\<close>

fun np_sqrt :: "npfloat \<Rightarrow> npfloat" where
  "np_sqrt (Some x) = (if x < 0 then None else Some (sqrt x))"
| "np_sqrt None = None"

text \<open>
  \<open>x ** y\<close> on floats: a negative base with a fractional exponent is \<open>nan\<close>, a zero base
  with a negative exponent is \<open>inf\<close>.
\<close>

fun np_power :: "npfloat \<Rightarrow> npfloat \<Rightarrow> npfloat" where
  "np_power (Some x) (Some y) =
     (if 0 < x then Some (x powr y)
      else if x = 0 then (if 0 < y then Some 0 else if y = 0 then Some 1 else None)
      else if y = of_int \<lfloor>y\<rfloor> then Some (x powi \<lfloor>y\<rfloor>)
      else None)"
| "np_power _ _ = None"

text \<open>\<open>np.log10\<close> of zero is \<open>-inf\<close>, of a negative number \<open>nan\<close>.\<close>

fun np_log10 :: "npfloat \<Rightarrow> npfloat" where
  "np_log10 (Some x) = (if 0 < x then Some (log 10 x) else None)"
| "np_log10 None = None"

definition isfinite :: "npfloat \<Rightarrow> bool" where
  "isfinite v = (v \<noteq> None)"

datatype error = ValueError

text \<open>Sequencing of calls that may raise: the first exception ends the computation.\<close>

fun bind_err :: "error + 'a \<Rightarrow> ('a \<Rightarrow> error + 'b) \<Rightarrow> error + 'b" where
  "bind_err (Inl e) f = Inl e"
| "bind_err (Inr v) f = f v"

section \<open>The data object\<close>

text \<open>
  \<open>np.linspace(start, stop, num)\<close> and \<open>np.logspace(start, stop, num)\<close> (base 10).
\<close>

definition linspace :: "real \<Rightarrow> real \<Rightarrow> nat \<Rightarrow> real list" where
  "linspace start stop num =
     map (\<lambda>i. start + real i * ((stop - start) / real (num - 1))) [0..<num]"

definition logspace :: "real \<Rightarrow> real \<Rightarrow> nat \<Rightarrow> real list" where
  "logspace start stop num = map (\<lambda>y. 10 powr y) (linspace start stop num)"

definition N_Z_GRID_POINTS :: nat where
  "N_Z_GRID_POINTS = 1000"

text \<open>
  \<open>NinjaDataVectorized\<close>: the speed of light and the two grids.  The observational
  arrays filled in by \<open>load_all_data\<close> are never read by the models and are left out.
\<close>

record NinjaData =
  c :: real
  z_grid :: "real list"
  a_grid :: "real list"

definition NinjaDataVectorized :: NinjaData where
  "NinjaDataVectorized =
     (let zs = logspace (-3) (log 10 5) N_Z_GRID_POINTS
      in \<lparr> c = 299792.458, z_grid = zs, a_grid = map (\<lambda>z. 1 / (1 + z)) zs \<rparr>)"

text \<open>The module-level singleton \<open>data = NinjaDataVectorized()\<close>.\<close>

definition data :: NinjaData where
  "data = NinjaDataVectorized"

section \<open>Library routines the constructor calls\<close>

subsection \<open>\<open>scipy.integrate.cumulative_trapezoid(y, x, initial=0)\<close>\<close>

fun trapezoid_steps :: "real list \<Rightarrow> npfloat list \<Rightarrow> npfloat list" where
  "trapezoid_steps (x0 # x1 # xs) (y0 # y1 # ys) =
     np_div (np_mul (Some (x1 - x0)) (np_add y1 y0)) (Some 2)
       # trapezoid_steps (x1 # xs) (y1 # ys)"
| "trapezoid_steps _ _ = []"

fun cumsum :: "npfloat \<Rightarrow> npfloat list \<Rightarrow> npfloat list" where
  "cumsum acc [] = []"
| "cumsum acc (t # ts) = np_add acc t # cumsum (np_add acc t) ts"

definition cumulative_trapezoid :: "npfloat list \<Rightarrow> real list \<Rightarrow> error + npfloat list" where
  "cumulative_trapezoid y x =
     (if length x \<noteq> length y \<or> y = [] then Inl ValueError
      else Inr (Some 0 # cumsum (Some 0) (trapezoid_steps x y)))"

subsection \<open>\<open>scipy.interpolate.PchipInterpolator(x, y)\<close>\<close>

text \<open>
  A piecewise cubic: the breakpoints, and for every interval the four coefficients of
  \<open>c0 s^3 + c1 s^2 + c2 s + c3\<close> in the local variable \<open>s = x - x_i\<close>.
\<close>

record PPoly =
  ppoly_x :: "real list"
  ppoly_c :: "(real \<times> real \<times> real \<times> real) list"
  extrapolate :: bool

fun diff :: "real list \<Rightarrow> real list" where
  "diff (x0 # x1 # xs) = (x1 - x0) # diff (x1 # xs)"
| "diff _ = []"

text \<open>The one-sided three-point estimate at an end point, with its two shape masks.\<close>

definition edge_case :: "real \<Rightarrow> real \<Rightarrow> real \<Rightarrow> real \<Rightarrow> real" where
  "edge_case h0 h1 m0 m1 =
     (let d = ((2 * h0 + h1) * m0 - h0 * m1) / (h0 + h1)
      in if sgn d \<noteq> sgn m0 then 0
         else if sgn m0 \<noteq> sgn m1 \<and> \<bar>d\<bar> > 3 * \<bar>m0\<bar> then 3 * m0
         else d)"

text \<open>The weighted harmonic mean of the two adjacent slopes at an interior point.\<close>

definition whmean_deriv :: "real \<Rightarrow> real \<Rightarrow> real \<Rightarrow> real \<Rightarrow> real" where
  "whmean_deriv hp hk mp mk =
     (if sgn mk \<noteq> sgn mp \<or> mk = 0 \<or> mp = 0 then 0
      else (let w1 = 2 * hk + hp; w2 = hk + 2 * hp
            in 1 / ((w1 / mp + w2 / mk) / (w1 + w2))))"

fun interior_derivatives :: "real list \<Rightarrow> real list \<Rightarrow> real list" where
  "interior_derivatives (hp # hk # hs) (mp # mk # ms) =
     whmean_deriv hp hk mp mk # interior_derivatives (hk # hs) (mk # ms)"
| "interior_derivatives _ _ = []"

definition find_derivatives :: "real list \<Rightarrow> real list \<Rightarrow> real list" where
  "find_derivatives x y =
     (let hk = diff x; mk = map2 (\<lambda>dy h. dy / h) (diff y) hk
      in if length y = 2 then [mk ! 0, mk ! 0]
         else edge_case (hk ! 0) (hk ! 1) (mk ! 0) (mk ! 1)
              # interior_derivatives hk mk
              @ [edge_case (rev hk ! 0) (rev hk ! 1) (rev mk ! 0) (rev mk ! 1)])"

text \<open>The coefficients of the cubic Hermite piece on each interval.\<close>

fun hermite_coefficients ::
  "real list \<Rightarrow> real list \<Rightarrow> real list \<Rightarrow> (real \<times> real \<times> real \<times> real) list" where
  "hermite_coefficients (x0 # x1 # xs) (y0 # y1 # ys) (d0 # d1 # ds) =
     (let dxr = x1 - x0; slope = (y1 - y0) / dxr; t = (d0 + d1 - 2 * slope) / dxr
      in (t / dxr, (slope - d0) / dxr - t, d0, y0))
       # hermite_coefficients (x1 # xs) (y1 # ys) (d1 # ds)"
| "hermite_coefficients _ _ _ = []"

text \<open>
  The constructor refuses fewer than two points, arrays of different lengths, a value
  that is not finite, and abscissae that do not increase strictly.  \<open>extrapolate\<close> is not
  passed by the program, and its default \<open>None\<close> is set to \<open>True\<close>.
\<close>

definition PchipInterpolator :: "real list \<Rightarrow> npfloat list \<Rightarrow> error + PPoly" where
  "PchipInterpolator x y =
     (if length x < 2 then Inl ValueError
      else if length x \<noteq> length y then Inl ValueError
      else if \<not> list_all isfinite y then Inl ValueError
      else if \<not> sorted_wrt (<) x then Inl ValueError
      else (let yr = map the y
            in Inr \<lparr> ppoly_x = x,
                     ppoly_c = hermite_coefficients x yr (find_derivatives x yr),
                     extrapolate = True \<rparr>))"

text \<open>
  Evaluation: the interval of \<open>v\<close> is the number of interior breakpoints not above \<open>v\<close>
  (so a point below the first breakpoint falls into the first interval and a point at or
  above the last one into the last interval).  Outside the breakpoints the piece is
  extended when \<open>extrapolate\<close> is set, and the result is \<open>nan\<close> otherwise.
\<close>

definition find_interval :: "real list \<Rightarrow> real \<Rightarrow> nat" where
  "find_interval x v = length (takeWhile (\<lambda>b. b \<le> v) (butlast (tl x)))"

definition evaluate_piece :: "real \<times> real \<times> real \<times> real \<Rightarrow> real \<Rightarrow> real" where
  "evaluate_piece k s = (case k of (c0, c1, c2, c3) \<Rightarrow> c0 * s ^ 3 + c1 * s ^ 2 + c2 * s + c3)"

definition ppoly_call :: "PPoly \<Rightarrow> real \<Rightarrow> npfloat" where
  "ppoly_call p v =
     (let x = ppoly_x p
      in if \<not> extrapolate p \<and> (v < hd x \<or> last x < v) then None
         else (let i = find_interval x v
               in Some (evaluate_piece (ppoly_c p ! i) (v - x ! i))))"

subsection \<open>\<open>scipy.interpolate.interp1d(x, y, bounds_error=False, fill_value="extrapolate")\<close>\<close>

record interp1d =
  interp_x :: "real list"
  interp_y :: "npfloat list"

text \<open>
  The default kind is linear.  The constructor sorts the points by abscissa
  (\<open>assume_sorted=False\<close>, a stable sort) and refuses arrays of different lengths.
\<close>

definition interp1d_init :: "real list \<Rightarrow> npfloat list \<Rightarrow> error + interp1d" where
  "interp1d_init x y =
     (if length x \<noteq> length y \<or> x = [] then Inl ValueError
      else (let pts = sort_key fst (zip x y)
            in Inr \<lparr> interp_x = map fst pts, interp_y = map snd pts \<rparr>))"

text \<open>\<open>np.searchsorted(x, v)\<close>, side left: the number of entries below \<open>v\<close>.\<close>

definition searchsorted :: "real list \<Rightarrow> real \<Rightarrow> nat" where
  "searchsorted x v = length (takeWhile (\<lambda>b. b < v) x)"

definition clip :: "nat \<Rightarrow> nat \<Rightarrow> nat \<Rightarrow> nat" where
  "clip i lo hi = min (max i lo) hi"

text \<open>
  Linear evaluation; with \<open>fill_value="extrapolate"\<close> no bounds are checked, so the first
  or last segment is extended.
\<close>

definition interp1d_call :: "interp1d \<Rightarrow> real \<Rightarrow> npfloat" where
  "interp1d_call f v =
     (let x = interp_x f; y = interp_y f;
          hi = clip (searchsorted x v) 1 (length x - 1);
          lo = hi - 1;
          slope = np_div (np_sub (y ! hi) (y ! lo)) (Some (x ! hi - x ! lo))
      in np_add (np_mul slope (Some (v - x ! lo))) (y ! lo))"

section \<open>The models\<close>

record BaseModel =
  H0 :: real
  Om :: real
  w0 :: real
  wa :: real
  xi :: real
  model_data :: NinjaData
  hz_grid :: "npfloat list"
  Dc_interp :: PPoly
  DL_interp :: PPoly
  Hz_interp :: interp1d

text \<open>The grids of \<open>BaseModel.__init__\<close>, one entry per scale factor.\<close>

definition w_de :: "real \<Rightarrow> real \<Rightarrow> real \<Rightarrow> real" where
  "w_de w0' wa' a = w0' + wa' * (1 - a)"

definition rho_de :: "real \<Rightarrow> real \<Rightarrow> real \<Rightarrow> real \<Rightarrow> npfloat" where
  "rho_de w0' wa' xi' a = np_power (Some a) (Some (- 3 * (1 + w_de w0' wa' a + xi')))"

definition radicand :: "real \<Rightarrow> real \<Rightarrow> real \<Rightarrow> real \<Rightarrow> real \<Rightarrow> npfloat" where
  "radicand om w0' wa' xi' a =
     np_add (np_div (Some om) (Some (a ^ 3))) (np_mul (Some (1 - om)) (rho_de w0' wa' xi' a))"

definition hz_of :: "real \<Rightarrow> real \<Rightarrow> real \<Rightarrow> real \<Rightarrow> real \<Rightarrow> real \<Rightarrow> npfloat" where
  "hz_of h0 om w0' wa' xi' a = np_mul (Some h0) (np_sqrt (radicand om w0' wa' xi' a))"

definition BaseModel_init ::
  "real \<Rightarrow> real \<Rightarrow> NinjaData \<Rightarrow> real \<Rightarrow> real \<Rightarrow> real \<Rightarrow> error + BaseModel" where
  "BaseModel_init h0 om d w0' wa' xi' =
     (let hz = map (hz_of h0 om w0' wa' xi') (a_grid d)
      in bind_err (cumulative_trapezoid (map (np_div (Some 1)) hz) (z_grid d)) (\<lambda>d_c_grid.
         bind_err (PchipInterpolator (z_grid d) d_c_grid) (\<lambda>dc.
         bind_err (PchipInterpolator (z_grid d)
                     (map2 (\<lambda>z dcz. np_div (np_mul (Some ((1 + z) * c d)) dcz) (Some 100000))
                        (z_grid d) d_c_grid)) (\<lambda>dl.
         bind_err (interp1d_init (z_grid d) hz) (\<lambda>hzi.
         Inr \<lparr> H0 = h0, Om = om, w0 = w0', wa = wa', xi = xi', model_data = d,
               hz_grid = hz, Dc_interp = dc, DL_interp = dl, Hz_interp = hzi \<rparr>)))))"

definition H :: "'a BaseModel_scheme \<Rightarrow> real \<Rightarrow> npfloat" where
  "H m z = interp1d_call (Hz_interp m) z"

definition Dc :: "'a BaseModel_scheme \<Rightarrow> real \<Rightarrow> npfloat" where
  "Dc m z = ppoly_call (Dc_interp m) z"

definition DL :: "'a BaseModel_scheme \<Rightarrow> real \<Rightarrow> npfloat" where
  "DL m z = ppoly_call (DL_interp m) z"

definition mu :: "'a BaseModel_scheme \<Rightarrow> real \<Rightarrow> npfloat" where
  "mu m z = np_add (np_mul (Some 5) (np_log10 (DL m z))) (Some 25)"

definition DV :: "'a BaseModel_scheme \<Rightarrow> real \<Rightarrow> npfloat" where
  "DV m z =
     (let Dc_z = Dc m z; Hz_z = H m z
      in np_power
           (np_div (np_mul (np_mul (Some (1 + z)) (np_power Dc_z (Some 2)))
                      (Some (c (model_data m)))) Hz_z)
           (Some (1 / 3)))"

definition DA_Gpc :: "'a BaseModel_scheme \<Rightarrow> real \<Rightarrow> npfloat" where
  "DA_Gpc m z =
     np_mul (np_mul (Dc m z) (np_div (Some 1) (Some (1 + z)))) (Some (c data / 100000))"

record LCDM_Vectorized = BaseModel +
  s8 :: real

record DUT_Vectorized = BaseModel +
  s8 :: real

definition LCDM_Vectorized_init :: "real \<Rightarrow> real \<Rightarrow> real \<Rightarrow> NinjaData \<Rightarrow> error + LCDM_Vectorized" where
  "LCDM_Vectorized_init h0 om s d =
     bind_err (BaseModel_init h0 om d (- 1) 0 0)
       (\<lambda>b. Inr (BaseModel.extend b (LCDM_Vectorized.fields s)))"

definition DUT_Vectorized_init ::
  "real \<Rightarrow> real \<Rightarrow> real \<Rightarrow> real \<Rightarrow> real \<Rightarrow> real \<Rightarrow> NinjaData \<Rightarrow> error + DUT_Vectorized" where
  "DUT_Vectorized_init h0 om w0' wa' xi' s d =
     bind_err (BaseModel_init h0 om d w0' wa' xi')
       (\<lambda>b. Inr (BaseModel.extend b (DUT_Vectorized.fields s)))"




section \<open>Auxiliary definitions\<close>

text \<open>
  The grid point with index \<open>i\<close>, the real-valued counterparts of the table
  computations (what the constructor computes when no value is non-finite), and the
  object the constructor then returns.  They only serve to state and prove the results
  below; the lemmas \<open>BaseModel_init_ok\<close> and \<open>BaseModel_init_fail\<close> connect them to the
  constructor.
\<close>

definition zf :: "nat \<Rightarrow> real" where
  "zf i = 10 powr (- 3 + real i * ((log 10 5 - (- 3)) / real (N_Z_GRID_POINTS - 1)))"

fun trapezoid_steps_r :: "real list \<Rightarrow> real list \<Rightarrow> real list" where
  "trapezoid_steps_r (x0 # x1 # xs) (y0 # y1 # ys) =
     (x1 - x0) * (y1 + y0) / 2 # trapezoid_steps_r (x1 # xs) (y1 # ys)"
| "trapezoid_steps_r _ _ = []"

fun cumsum_r :: "real \<Rightarrow> real list \<Rightarrow> real list" where
  "cumsum_r acc [] = []"
| "cumsum_r acc (t # ts) = (acc + t) # cumsum_r (acc + t) ts"

definition rad_r :: "real \<Rightarrow> real \<Rightarrow> real \<Rightarrow> real \<Rightarrow> real \<Rightarrow> real" where
  "rad_r om w0' wa' xi' a = om / a ^ 3 + (1 - om) * a powr (- 3 * (1 + w_de w0' wa' a + xi'))"

definition hz_r :: "real \<Rightarrow> real \<Rightarrow> real \<Rightarrow> real \<Rightarrow> real \<Rightarrow> real \<Rightarrow> real" where
  "hz_r h0 om w0' wa' xi' a = h0 * sqrt (rad_r om w0' wa' xi' a)"

definition dc_table :: "real \<Rightarrow> real \<Rightarrow> NinjaData \<Rightarrow> real \<Rightarrow> real \<Rightarrow> real \<Rightarrow> real list" where
  "dc_table h0 om d w0' wa' xi' =
     0 # cumsum_r 0 (trapezoid_steps_r (z_grid d)
           (map (\<lambda>a. 1 / hz_r h0 om w0' wa' xi' a) (a_grid d)))"

definition dl_table :: "real \<Rightarrow> real \<Rightarrow> NinjaData \<Rightarrow> real \<Rightarrow> real \<Rightarrow> real \<Rightarrow> real list" where
  "dl_table h0 om d w0' wa' xi' =
     map2 (\<lambda>z dcz. (1 + z) * c d * dcz / 100000) (z_grid d) (dc_table h0 om d w0' wa' xi')"

definition pchip :: "real list \<Rightarrow> real list \<Rightarrow> PPoly" where
  "pchip x y = \<lparr> ppoly_x = x, ppoly_c = hermite_coefficients x y (find_derivatives x y),
                 extrapolate = True \<rparr>"

definition engine :: "real \<Rightarrow> real \<Rightarrow> NinjaData \<Rightarrow> real \<Rightarrow> real \<Rightarrow> real \<Rightarrow> BaseModel" where
  "engine h0 om d w0' wa' xi' =
     \<lparr> H0 = h0, Om = om, w0 = w0', wa = wa', xi = xi', model_data = d,
       hz_grid = map (\<lambda>a. Some (hz_r h0 om w0' wa' xi' a)) (a_grid d),
       Dc_interp = pchip (z_grid d) (dc_table h0 om d w0' wa' xi'),
       DL_interp = pchip (z_grid d) (dl_table h0 om d w0' wa' xi'),
       Hz_interp = \<lparr> interp_x = z_grid d,
                     interp_y = map (\<lambda>a. Some (hz_r h0 om w0' wa' xi' a)) (a_grid d) \<rparr> \<rparr>"

definition grid_ok :: "real \<Rightarrow> real \<Rightarrow> NinjaData \<Rightarrow> real \<Rightarrow> real \<Rightarrow> real \<Rightarrow> bool" where
  "grid_ok h0 om d w0' wa' xi' =
     (h0 \<noteq> 0 \<and> list_all (\<lambda>a. 0 < rad_r om w0' wa' xi' a) (a_grid d))"

definition wf_data :: "NinjaData \<Rightarrow> bool" where
  "wf_data d = (2 \<le> length (z_grid d) \<and> length (a_grid d) = length (z_grid d)
      \<and> sorted_wrt (<) (z_grid d) \<and> list_all (\<lambda>a. 0 < a) (a_grid d))"

text \<open>The best-fit parameters of the baseline model, \<open>BEST_FIT["lcdm"]\<close>.\<close>

definition lcdm_H0 :: real where
  "lcdm_H0 = 67.8"

definition lcdm_Om :: real where
  "lcdm_Om = 0.315"

definition lcdm_s8 :: real where
  "lcdm_s8 = 0.811"







text \<open>
  The baseline Hubble rate in units of \<open>H0\<close>, as a function of the redshift: the grid
  value of the baseline engine at \<open>z\<close> is \<open>H0 * g_lcdm Om z\<close> (lemma \<open>hz_r_baseline_z\<close>).
\<close>

definition g_lcdm :: "real \<Rightarrow> real \<Rightarrow> real" where
  "g_lcdm om z = sqrt (om * (1 + z) ^ 3 + (1 - om))"

text \<open>
  One entry of \<open>hermite_coefficients\<close>: the piece on an interval of length \<open>h\<close> with end
  values \<open>y0\<close>, \<open>y1\<close> and end slopes \<open>d0\<close>, \<open>d1\<close> (lemma \<open>nth_hermite_piece\<close>).
\<close>

definition hermite_piece :: "real \<Rightarrow> real \<Rightarrow> real \<Rightarrow> real \<Rightarrow> real \<Rightarrow> real \<times> real \<times> real \<times> real" where
  "hermite_piece h y0 y1 d0 d1 =
     (let dxr = h; slope = (y1 - y0) / dxr; t = (d0 + d1 - 2 * slope) / dxr
      in (t / dxr, (slope - d0) / dxr - t, d0, y0))"

text \<open>The constant ratio of consecutive points of the logarithmic grid.\<close>

definition grid_ratio :: real where
  "grid_ratio = 10 powr ((log 10 5 - (- 3)) / real (N_Z_GRID_POINTS - 1))"

text \<open>
  Parameters of moderate size: a positive \<open>H0\<close> between \<open>1e-100\<close> and \<open>1e100\<close>, a matter
  density strictly between 0 and 1, and dark-energy parameters of magnitude at most 10.
  For them every number the constructor computes on the program's grid stays far inside
  the range of a double: nothing overflows on the machine, where the idealisation of a
  float as a real number would not show it.
\<close>

definition moderate :: "real \<Rightarrow> real \<Rightarrow> real \<Rightarrow> real \<Rightarrow> real \<Rightarrow> bool" where
  "moderate h0 om w0' wa' xi' =
     (1 / 10 ^ 100 \<le> h0 \<and> h0 \<le> 10 ^ 100 \<and> 0 < om \<and> om < 1
      \<and> \<bar>w0'\<bar> \<le> 10 \<and> \<bar>wa'\<bar> \<le> 10 \<and> \<bar>xi'\<bar> \<le> 10)"

section \<open>The formulas of the specification\<close>

text \<open>
  These definitions follow the wording of the specification, to be compared with the
  definitions above, which follow the code.
\<close>

definition DL_relation_spec :: "'a BaseModel_scheme \<Rightarrow> real \<Rightarrow> real \<Rightarrow> bool" where
  "DL_relation_spec m z tol =
     (case (DL m z, Dc m z) of
        (Some dl, Some dc) \<Rightarrow>
          \<bar>dl - (1 + z) * c (model_data m) * dc\<bar> \<le> tol * \<bar>(1 + z) * c (model_data m) * dc\<bar>
      | _ \<Rightarrow> False)"

definition DA_spec :: "'a BaseModel_scheme \<Rightarrow> real \<Rightarrow> npfloat" where
  "DA_spec m z = np_div (Dc m z) (Some (1 + z))"

definition DV_spec :: "'a BaseModel_scheme \<Rightarrow> real \<Rightarrow> npfloat" where
  "DV_spec m z =
     np_power
       (np_div
          (np_mul (np_mul (np_mul (Some ((1 + z) ^ 2)) (np_power (DA_spec m z) (Some 2)))
                     (Some (c (model_data m)))) (Some z))
          (H m z))
       (Some (1 / 3))"



section \<open>Lemmas\<close>

subsection \<open>Finite and non-finite values\<close>


lemma isfinite_simps [simp]: "isfinite (Some x)" "\<not> isfinite None"
  by (simp_all add: isfinite_def)

lemma np_add_finite: "isfinite (np_add a b) \<longleftrightarrow> isfinite a \<and> isfinite b"
  by (cases a; cases b) simp_all

lemma np_mul_finite: "isfinite (np_mul a b) \<longleftrightarrow> isfinite a \<and> isfinite b"
  by (cases a; cases b) simp_all

lemma np_div_finite: "isfinite (np_div a b) \<longleftrightarrow> isfinite a \<and> isfinite b \<and> b \<noteq> Some 0"
  by (cases a; cases b) simp_all

lemma trapezoid_steps_Some:
  "trapezoid_steps x (map Some y) = map Some (trapezoid_steps_r x y)"
  by (induction x y rule: trapezoid_steps_r.induct) simp_all

lemma cumsum_Some: "cumsum (Some a) (map Some ts) = map Some (cumsum_r a ts)"
  by (induction ts arbitrary: a) simp_all

lemma cumsum_finite: "list_all isfinite (cumsum acc ts) \<Longrightarrow> list_all isfinite ts"
  by (induction ts arbitrary: acc) (auto simp: np_add_finite)

lemma trapezoid_steps_finite:
  "length x = length y \<Longrightarrow> 2 \<le> length y \<Longrightarrow> list_all isfinite (trapezoid_steps x y)
     \<Longrightarrow> list_all isfinite y"
proof (induction x y rule: trapezoid_steps.induct)
  case (1 x0 x1 xs y0 y1 ys)
  from "1.prems"(3) have fin: "isfinite y0" "isfinite y1"
    by (simp_all add: np_div_finite np_mul_finite np_add_finite)
  show ?case
  proof (cases ys)
    case Nil
    with fin show ?thesis by simp
  next
    case (Cons y2 ys')
    with "1.prems" have "list_all isfinite (y1 # ys)"
      by (intro "1.IH") simp_all
    with fin show ?thesis by simp
  qed
qed simp_all

lemma list_all_finite_map_the: "list_all isfinite ys \<Longrightarrow> map Some (map the ys) = ys"
  by (induction ys) (auto simp: isfinite_def)

lemma length_trapezoid_steps_r:
  "length x = length y \<Longrightarrow> length (trapezoid_steps_r x y) = length y - 1"
  by (induction x y rule: trapezoid_steps_r.induct) simp_all

lemma length_cumsum_r [simp]: "length (cumsum_r a ts) = length ts"
  by (induction ts arbitrary: a) simp_all

lemma radicand_pos: "0 < a \<Longrightarrow> radicand om w0' wa' xi' a = Some (rad_r om w0' wa' xi' a)"
  by (simp add: radicand_def rho_de_def rad_r_def)

lemma hz_of_pos:
  "0 < a \<Longrightarrow> hz_of h0 om w0' wa' xi' a =
     (if rad_r om w0' wa' xi' a < 0 then None else Some (hz_r h0 om w0' wa' xi' a))"
  by (simp add: hz_of_def radicand_pos hz_r_def)

lemma inv_hz_finite:
  "0 < a \<Longrightarrow> isfinite (np_div (Some 1) (hz_of h0 om w0' wa' xi' a))
     \<longleftrightarrow> h0 \<noteq> 0 \<and> 0 < rad_r om w0' wa' xi' a"
  by (auto simp: hz_of_pos hz_r_def)

lemma inv_hz_Some:
  "0 < a \<Longrightarrow> h0 \<noteq> 0 \<Longrightarrow> 0 < rad_r om w0' wa' xi' a \<Longrightarrow>
     np_div (Some 1) (hz_of h0 om w0' wa' xi' a) = Some (1 / hz_r h0 om w0' wa' xi' a)"
  by (auto simp: hz_of_pos hz_r_def)

subsection \<open>The constructor\<close>

lemma length_trapezoid_steps:
  "length x = length y \<Longrightarrow> length (trapezoid_steps x y) = length y - 1"
  by (induction x y rule: trapezoid_steps.induct) simp_all

lemma length_cumsum [simp]: "length (cumsum a ts) = length ts"
  by (induction ts arbitrary: a) simp_all

lemma length_dc_table:
  "wf_data d \<Longrightarrow> length (dc_table h0 om d w0' wa' xi') = length (z_grid d)"
  by (auto simp: dc_table_def wf_data_def length_trapezoid_steps_r)

lemma length_dl_table:
  "wf_data d \<Longrightarrow> length (dl_table h0 om d w0' wa' xi') = length (z_grid d)"
  by (simp add: dl_table_def length_dc_table)

lemma PchipInterpolator_finite:
  "2 \<le> length x \<Longrightarrow> length y = length x \<Longrightarrow> sorted_wrt (<) x \<Longrightarrow>
     PchipInterpolator x (map Some y) = Inr (pchip x y)"
  by (simp add: PchipInterpolator_def pchip_def list_all_iff comp_def)

lemma PchipInterpolator_nonfinite:
  "\<not> list_all isfinite y \<Longrightarrow> PchipInterpolator x y = Inl ValueError"
  by (simp add: PchipInterpolator_def)

lemma interp1d_init_sorted:
  "x \<noteq> [] \<Longrightarrow> length y = length x \<Longrightarrow> sorted_wrt (<) x \<Longrightarrow>
     interp1d_init x y = Inr \<lparr> interp_x = x, interp_y = y \<rparr>"
proof -
  assume a: "x \<noteq> []" "length y = length x" "sorted_wrt (<) x"
  then have "sorted (map fst (zip x y))"
    by (simp add: strict_sorted_imp_sorted)
  then have "sort_key fst (zip x y) = zip x y"
    by (rule sort_key_id_if_sorted)
  with a show ?thesis by (simp add: interp1d_init_def)
qed

lemma hz_r_nonzero: "h0 \<noteq> 0 \<Longrightarrow> 0 < rad_r om w0' wa' xi' a \<Longrightarrow> hz_r h0 om w0' wa' xi' a \<noteq> 0"
  by (simp add: hz_r_def)

lemma hz_grid_ok:
  assumes "wf_data d" "grid_ok h0 om d w0' wa' xi'"
  shows "map (hz_of h0 om w0' wa' xi') (a_grid d)
           = map (\<lambda>a. Some (hz_r h0 om w0' wa' xi' a)) (a_grid d)"
    and "map (np_div (Some 1)) (map (hz_of h0 om w0' wa' xi') (a_grid d))
           = map Some (map (\<lambda>a. 1 / hz_r h0 om w0' wa' xi' a) (a_grid d))"
  using assms
  by (auto simp: wf_data_def grid_ok_def list_all_iff hz_of_pos hz_r_nonzero)

lemma dl_table_Some:
  "map2 (\<lambda>z dcz. np_div (np_mul (Some ((1 + z) * c d)) dcz) (Some 100000))
      (z_grid d) (map Some (dc_table h0 om d w0' wa' xi'))
     = map Some (dl_table h0 om d w0' wa' xi')"
  by (simp add: dl_table_def zip_map2 comp_def case_prod_unfold)

lemma BaseModel_init_ok:
  assumes wf: "wf_data d" and ok: "grid_ok h0 om d w0' wa' xi'"
  shows "BaseModel_init h0 om d w0' wa' xi' = Inr (engine h0 om d w0' wa' xi')"
proof -
  let ?inv = "map (\<lambda>a. 1 / hz_r h0 om w0' wa' xi' a) (a_grid d)"
  have ct: "cumulative_trapezoid (map Some ?inv) (z_grid d)
              = Inr (map Some (dc_table h0 om d w0' wa' xi'))"
    using wf
    by (auto simp: cumulative_trapezoid_def dc_table_def wf_data_def
        trapezoid_steps_Some cumsum_Some simp del: map_map)
  have p1: "PchipInterpolator (z_grid d) (map Some (dc_table h0 om d w0' wa' xi'))
              = Inr (pchip (z_grid d) (dc_table h0 om d w0' wa' xi'))"
    using wf by (intro PchipInterpolator_finite) (simp_all add: length_dc_table wf_data_def)
  have p2: "PchipInterpolator (z_grid d) (map Some (dl_table h0 om d w0' wa' xi'))
              = Inr (pchip (z_grid d) (dl_table h0 om d w0' wa' xi'))"
    using wf by (intro PchipInterpolator_finite) (simp_all add: length_dl_table wf_data_def)
  have p3: "interp1d_init (z_grid d) (map (\<lambda>a. Some (hz_r h0 om w0' wa' xi' a)) (a_grid d))
              = Inr \<lparr> interp_x = z_grid d,
                      interp_y = map (\<lambda>a. Some (hz_r h0 om w0' wa' xi' a)) (a_grid d) \<rparr>"
    using wf by (intro interp1d_init_sorted) (auto simp: wf_data_def)
  show ?thesis
    unfolding BaseModel_init_def Let_def
    unfolding hz_grid_ok(2)[OF wf ok]
    unfolding hz_grid_ok(1)[OF wf ok]
    by (simp only: ct bind_err.simps dl_table_Some p1 p2 p3 engine_def)
qed

lemma BaseModel_init_fail:
  assumes wf: "wf_data d" and bad: "\<not> grid_ok h0 om d w0' wa' xi'"
  shows "BaseModel_init h0 om d w0' wa' xi' = Inl ValueError"
proof -
  let ?inv = "map (np_div (Some 1)) (map (hz_of h0 om w0' wa' xi') (a_grid d))"
  from wf have len: "length (z_grid d) = length ?inv" "2 \<le> length ?inv"
    by (simp_all add: wf_data_def)
  have "\<not> list_all isfinite ?inv"
  proof
    assume "list_all isfinite ?inv"
    then have "\<forall>a\<in>set (a_grid d). isfinite (np_div (Some 1) (hz_of h0 om w0' wa' xi' a))"
      by (simp add: list_all_iff)
    moreover from wf have "\<forall>a\<in>set (a_grid d). 0 < a"
      by (simp add: wf_data_def list_all_iff)
    ultimately have "\<forall>a\<in>set (a_grid d). h0 \<noteq> 0 \<and> 0 < rad_r om w0' wa' xi' a"
      using inv_hz_finite by blast
    moreover from wf have "a_grid d \<noteq> []" by (auto simp: wf_data_def)
    ultimately have "grid_ok h0 om d w0' wa' xi'"
      by (cases "a_grid d") (auto simp: grid_ok_def list_all_iff)
    with bad show False by simp
  qed
  then have "\<not> list_all isfinite (trapezoid_steps (z_grid d) ?inv)"
    using trapezoid_steps_finite[OF len] by blast
  then have nf: "\<not> list_all isfinite (Some 0 # cumsum (Some 0) (trapezoid_steps (z_grid d) ?inv))"
    using cumsum_finite by auto
  have ct: "cumulative_trapezoid ?inv (z_grid d)
          = Inr (Some 0 # cumsum (Some 0) (trapezoid_steps (z_grid d) ?inv))"
    using len by (auto simp: cumulative_trapezoid_def)
  show ?thesis
    unfolding BaseModel_init_def Let_def
    by (simp only: ct bind_err.simps PchipInterpolator_nonfinite[OF nf])
qed

lemma BaseModel_init_char:
  "wf_data d \<Longrightarrow> BaseModel_init h0 om d w0' wa' xi' =
     (if grid_ok h0 om d w0' wa' xi' then Inr (engine h0 om d w0' wa' xi') else Inl ValueError)"
  by (simp add: BaseModel_init_ok BaseModel_init_fail)

subsection \<open>The redshift grid\<close>
lemma z_grid_data: "z_grid data = map zf [0..<N_Z_GRID_POINTS]"
  by (simp add: data_def NinjaDataVectorized_def logspace_def linspace_def zf_def Let_def comp_def)

lemma a_grid_data: "a_grid data = map (\<lambda>i. 1 / (1 + zf i)) [0..<N_Z_GRID_POINTS]"
  by (simp add: data_def NinjaDataVectorized_def logspace_def linspace_def zf_def Let_def comp_def)

lemma c_data: "c data = 299792.458"
  by (simp add: data_def NinjaDataVectorized_def Let_def)

lemma zf_strict: "i < j \<Longrightarrow> zf i < zf j"
proof -
  assume ij: "i < j"
  have "(0::real) < log 10 5" by simp
  then have "(0::real) < (log 10 5 - (- 3)) / real (N_Z_GRID_POINTS - 1)"
    by (simp add: N_Z_GRID_POINTS_def add_pos_pos)
  with ij have "real i * ((log 10 5 - (- 3)) / real (N_Z_GRID_POINTS - 1))
      < real j * ((log 10 5 - (- 3)) / real (N_Z_GRID_POINTS - 1))"
    by (intro mult_strict_right_mono) simp_all
  then show ?thesis unfolding zf_def by (intro powr_less_mono) simp_all
qed

lemma zf_0: "zf 0 = 1 / 1000"
  unfolding zf_def by (simp add: powr_minus_divide)

lemma zf_pos: "0 < zf i"
  unfolding zf_def by simp

lemma z_grid_sorted: "sorted_wrt (<) (z_grid data)"
  unfolding z_grid_data by (simp add: sorted_wrt_map sorted_wrt_iff_nth_less zf_strict)

lemma wf_data_data: "wf_data data"
  unfolding wf_data_def using z_grid_sorted
  by (simp add: z_grid_data a_grid_data N_Z_GRID_POINTS_def list_all_iff zf_pos add_pos_pos)

subsection \<open>The ratio of consecutive grid points\<close>

lemma zf_Suc: "zf (Suc i) = zf i * grid_ratio"
proof -
  define k where "k = (log 10 5 - (- 3)) / real (N_Z_GRID_POINTS - 1)"
  have "- 3 + real (Suc i) * k = (- 3 + real i * k) + k"
    by (simp add: algebra_simps)
  then show ?thesis unfolding zf_def grid_ratio_def k_def[symmetric] by (simp only: powr_add)
qed

lemma ln_10_ge_2: "2 \<le> ln (10 :: real)"
proof -
  have "exp (2 :: real) = exp 1 * exp 1" by (simp flip: exp_add)
  also have "\<dots> \<le> 3 * 3" using exp_le by (intro mult_mono) simp_all
  also have "\<dots> \<le> (10 :: real)" by simp
  finally show ?thesis by (simp add: ln_ge_iff)
qed

lemma grid_ratio_lower: "1 + 6 / 999 \<le> grid_ratio"
proof -
  define L where "L = log 10 (5 :: real)"
  have L: "0 \<le> L" unfolding L_def by simp
  define k where "k = (L - (- 3)) / real (N_Z_GRID_POINTS - 1)"
  from L have "3 / 999 \<le> k"
    by (simp add: k_def N_Z_GRID_POINTS_def)
  then have "(3 / 999) * 2 \<le> k * ln 10"
    using ln_10_ge_2 by (intro mult_mono) simp_all
  then have "1 + 6 / 999 \<le> 1 + k * ln 10" by simp
  also have "\<dots> \<le> exp (k * ln 10)" by (rule exp_ge_add_one_self)
  also have "\<dots> = grid_ratio" by (simp add: grid_ratio_def powr_def k_def L_def)
  finally show ?thesis .
qed

lemma grid_ratio_upper: "grid_ratio \<le> 2"
proof -
  define L where "L = log 10 (5 :: real)"
  have "L \<le> log 10 (10 :: real)" unfolding L_def by (subst log_le_cancel_iff) simp_all
  then have L: "L \<le> 1" by simp
  define k where "k = (L - (- 3)) / real (N_Z_GRID_POINTS - 1)"
  from L have "k \<le> 1 / 4"
    by (simp add: k_def N_Z_GRID_POINTS_def)
  then have "10 powr k \<le> 10 powr (1 / 4)"
    by (intro powr_mono) simp_all
  then have "grid_ratio \<le> 10 powr (1 / 4)"
    by (simp only: grid_ratio_def k_def L_def)
  also have "10 powr (1 / 4) \<le> (16 :: real) powr (1 / 4)"
    by (intro powr_mono2) simp_all
  also have "(16 :: real) = 2 powr 4" by simp
  also have "(2 powr 4) powr (1 / 4) = (2 :: real) powr (4 * (1 / 4))"
    by (rule powr_powr)
  also have "\<dots> = 2" by simp
  finally show ?thesis .
qed

lemma grid_ratio_root: "grid_ratio = 5000 powr (1 / 999)"
proof -
  have "(10 :: real) powr (log 10 5 + 3) = 10 powr (log 10 5) * 10 powr 3"
    by (rule powr_add)
  also have "(10 :: real) powr (log 10 5) = 5" by simp
  also have "(10 :: real) powr 3 = 1000" by simp
  finally have e: "(10 :: real) powr (log 10 5 + 3) = 5000" by simp
  have "grid_ratio = 10 powr ((log 10 5 + 3) * (1 / 999))"
    by (simp add: grid_ratio_def N_Z_GRID_POINTS_def)
  also have "\<dots> = (10 powr (log 10 5 + 3)) powr (1 / 999)"
    by (simp only: powr_powr)
  finally show ?thesis by (simp only: e)
qed

lemma power_101_999: "(5000 :: real) \<le> (101 / 100) ^ 999"
proof -
  have a: "(11046 / 10000 :: real) \<le> (101 / 100) ^ 10" by (simp add: power_divide)
  have b: "(27 / 10 :: real) \<le> (11046 / 10000) ^ 10" by (simp add: power_divide)
  have "(5000 :: real) \<le> (27 / 10) ^ 9" by (simp add: power_divide)
  also have "\<dots> \<le> ((11046 / 10000 :: real) ^ 10) ^ 9" using b by (intro power_mono) simp_all
  also have "\<dots> \<le> ((((101 / 100 :: real) ^ 10) ^ 10) ^ 9)"
    using a by (intro power_mono) simp_all
  also have "\<dots> = (101 / 100 :: real) ^ 900" by (simp only: flip: power_mult) simp
  also have "\<dots> \<le> (101 / 100 :: real) ^ 999" by (intro power_increasing) simp_all
  finally show ?thesis .
qed

lemma grid_ratio_le: "grid_ratio \<le> 101 / 100"
proof -
  have "(5000 :: real) \<le> (101 / 100) ^ 999" by (rule power_101_999)
  also have "\<dots> = (101 / 100) powr (real 999)" by (subst powr_realpow) simp_all
  finally have "(5000 :: real) powr (1 / 999) \<le> ((101 / 100) powr (real 999)) powr (1 / 999)"
    by (intro powr_mono2) simp_all
  also have "\<dots> = (101 / 100 :: real) powr (real 999 * (1 / 999))" by (rule powr_powr)
  also have "\<dots> = 101 / 100" by simp
  finally show ?thesis by (simp only: grid_ratio_root)
qed

subsection \<open>Interpolation at the breakpoints\<close>

lemma length_diff [simp]: "length (diff x) = length x - 1"
  by (induction x rule: diff.induct) simp_all

lemma nth_diff: "Suc i < length x \<Longrightarrow> diff x ! i = x ! Suc i - x ! i"
proof (induction x arbitrary: i rule: diff.induct)
  case (1 x0 x1 xs)
  then show ?case by (cases i) simp_all
qed simp_all

lemma length_interior_derivatives:
  "length h = length m \<Longrightarrow> length (interior_derivatives h m) = length h - 1"
  by (induction h m rule: interior_derivatives.induct) simp_all

lemma nth_interior_derivatives:
  "length h = length m \<Longrightarrow> Suc i < length h \<Longrightarrow>
     interior_derivatives h m ! i = whmean_deriv (h ! i) (h ! Suc i) (m ! i) (m ! Suc i)"
proof (induction h m arbitrary: i rule: interior_derivatives.induct)
  case (1 hp hk hs mp mk ms)
  then show ?case by (cases i) simp_all
qed simp_all

lemma length_find_derivatives:
  "2 \<le> length x \<Longrightarrow> length y = length x \<Longrightarrow> length (find_derivatives x y) = length x"
  by (auto simp: find_derivatives_def Let_def length_interior_derivatives)

lemma length_hermite_coefficients:
  "length y = length x \<Longrightarrow> length d = length x \<Longrightarrow>
     length (hermite_coefficients x y d) = length x - 1"
  by (induction x y d rule: hermite_coefficients.induct) simp_all

lemma nth_hermite_coefficients:
  "length y = length x \<Longrightarrow> length d = length x \<Longrightarrow> Suc i < length x \<Longrightarrow>
     hermite_coefficients x y d ! i =
       (let dxr = x ! Suc i - x ! i; slope = (y ! Suc i - y ! i) / dxr;
            t = (d ! i + d ! Suc i - 2 * slope) / dxr
        in (t / dxr, (slope - d ! i) / dxr - t, d ! i, y ! i))"
proof (induction x y d arbitrary: i rule: hermite_coefficients.induct)
  case (1 x0 x1 xs y0 y1 ys d0 d1 ds)
  then show ?case by (cases i) (simp_all add: Let_def)
qed simp_all

lemma length_takeWhile_sorted:
  assumes "\<And>j. j < k \<Longrightarrow> j < length ys \<Longrightarrow> P (ys ! j)"
    and "k < length ys \<Longrightarrow> \<not> P (ys ! k)" and "k \<le> length ys"
  shows "length (takeWhile P ys) = k"
proof -
  have "takeWhile P ys = take k ys"
    using assms(1,2) by (rule takeWhile_eq_take_P_nth)
  with assms(3) show ?thesis by simp
qed

lemma find_interval_between:
  assumes s: "sorted_wrt (<) x" and i: "Suc i < length x"
    and lo: "i = 0 \<or> x ! i \<le> v" and hi: "Suc (Suc i) = length x \<or> v < x ! Suc i"
  shows "find_interval x v = i"
  unfolding find_interval_def
proof (rule length_takeWhile_sorted)
  fix j assume j: "j < i" "j < length (butlast (tl x))"
  then have "butlast (tl x) ! j = x ! Suc j"
    by (simp add: nth_butlast nth_tl)
  moreover from j i s have "x ! Suc j \<le> x ! i"
    by (cases "Suc j = i") (auto simp: sorted_wrt_iff_nth_less less_imp_le)
  moreover from j lo have "x ! i \<le> v" by auto
  ultimately show "butlast (tl x) ! j \<le> v" by simp
next
  assume k: "i < length (butlast (tl x))"
  then have "butlast (tl x) ! i = x ! Suc i"
    by (simp add: nth_butlast nth_tl)
  moreover from k hi have "v < x ! Suc i" by auto
  ultimately show "\<not> butlast (tl x) ! i \<le> v" by simp
next
  from i show "i \<le> length (butlast (tl x))" by simp
qed

lemma find_interval_less: "2 \<le> length x \<Longrightarrow> Suc (find_interval x v) < length x"
proof -
  assume "2 \<le> length x"
  moreover have "find_interval x v \<le> length (butlast (tl x))"
    unfolding find_interval_def by (rule length_takeWhile_le)
  ultimately show ?thesis by simp
qed

lemma find_interval_node:
  "sorted_wrt (<) x \<Longrightarrow> Suc i < length x \<Longrightarrow> find_interval x (x ! i) = i"
  by (rule find_interval_between) (auto simp: sorted_wrt_iff_nth_less)

lemma find_interval_last:
  "sorted_wrt (<) x \<Longrightarrow> 2 \<le> length x \<Longrightarrow> find_interval x (x ! (length x - 1)) = length x - 2"
  by (rule find_interval_between)
     (auto simp: sorted_wrt_iff_nth_less less_imp_le numeral_2_eq_2 Suc_diff_Suc)

lemma ppoly_call_pchip:
  "ppoly_call (pchip x y) v =
     Some (evaluate_piece (hermite_coefficients x y (find_derivatives x y) ! find_interval x v)
             (v - x ! find_interval x v))"
  by (simp add: ppoly_call_def pchip_def Let_def)

lemma hermite_piece_start:
  "evaluate_piece (let dxr = h; slope = (y1 - y0) / dxr; t = (d0 + d1 - 2 * slope) / dxr
                   in (t / dxr, (slope - d0) / dxr - t, d0, y0)) 0 = y0"
  by (simp add: evaluate_piece_def Let_def)

lemma hermite_piece_end:
  assumes "h \<noteq> 0"
  shows "evaluate_piece (let dxr = h; slope = (y1 - y0) / dxr; t = (d0 + d1 - 2 * slope) / dxr
                   in (t / dxr, (slope - d0) / dxr - t, d0, y0)) h = y1"
proof -
  define slope where "slope = (y1 - y0) / h"
  define t where "t = (d0 + d1 - 2 * slope) / h"
  have a: "t / h * h ^ 3 = t * h ^ 2"
    using assms by (simp add: power3_eq_cube power2_eq_square)
  have b: "((slope - d0) / h - t) * h ^ 2 = (slope - d0) * h - t * h ^ 2"
    using assms by (simp add: power2_eq_square field_simps)
  have c: "slope * h = y1 - y0"
    using assms by (simp add: slope_def)
  have "t / h * h ^ 3 + ((slope - d0) / h - t) * h ^ 2 + d0 * h + y0 = y1"
    unfolding a b using c by (simp add: algebra_simps)
  then show ?thesis
    by (simp add: evaluate_piece_def Let_def slope_def t_def)
qed

lemma pchip_node:
  assumes s: "sorted_wrt (<) x" and l: "2 \<le> length x" "length y = length x" and i: "i < length x"
  shows "ppoly_call (pchip x y) (x ! i) = Some (y ! i)"
proof (cases "Suc i < length x")
  case True
  with s have fi: "find_interval x (x ! i) = i" by (rule find_interval_node)
  show ?thesis
    unfolding ppoly_call_pchip fi
    using True l
    by (simp add: nth_hermite_coefficients length_find_derivatives Let_def evaluate_piece_def)
next
  case False
  with i have ie: "i = length x - 1" by simp
  from l obtain k where k: "length x = Suc (Suc k)"
    by (metis Suc_le_D numeral_2_eq_2 Suc_le_mono)
  with ie have ik: "i = Suc k" by simp
  from s l have fi: "find_interval x (x ! Suc k) = k"
    using find_interval_last[of x] k by simp
  from s k have "x ! k < x ! Suc k"
    by (simp add: sorted_wrt_iff_nth_less)
  then have ne: "x ! Suc k - x ! k \<noteq> 0" by simp
  have "hermite_coefficients x y (find_derivatives x y) ! k =
      (let dxr = x ! Suc k - x ! k; slope = (y ! Suc k - y ! k) / dxr;
            t = (find_derivatives x y ! k + find_derivatives x y ! Suc k - 2 * slope) / dxr
        in (t / dxr, (slope - find_derivatives x y ! k) / dxr - t, find_derivatives x y ! k, y ! k))"
    using l k by (intro nth_hermite_coefficients) (simp_all add: length_find_derivatives)
  then show ?thesis
    unfolding ik ppoly_call_pchip fi
    by (simp only: hermite_piece_end[OF ne])
qed

lemma searchsorted_node:
  "sorted_wrt (<) x \<Longrightarrow> i < length x \<Longrightarrow> searchsorted x (x ! i) = i"
  unfolding searchsorted_def
  by (rule length_takeWhile_sorted) (auto simp: sorted_wrt_iff_nth_less)

lemma clip_bounds: "2 \<le> n \<Longrightarrow> 1 \<le> clip k 1 (n - 1) \<and> clip k 1 (n - 1) < n"
  by (auto simp: clip_def)

lemma interp1d_call_finite:
  assumes s: "sorted_wrt (<) x" and l: "2 \<le> length x" "length ys = length x"
  shows "interp1d_call \<lparr> interp_x = x, interp_y = map Some ys \<rparr> v =
     Some (let hi = clip (searchsorted x v) 1 (length x - 1); lo = hi - 1
           in (ys ! hi - ys ! lo) / (x ! hi - x ! lo) * (v - x ! lo) + ys ! lo)"
proof -
  let ?hi = "clip (searchsorted x v) 1 (length x - 1)"
  from l have b: "1 \<le> ?hi" "?hi < length x"
    using clip_bounds[of "length x" "searchsorted x v"] by simp_all
  then have "?hi - 1 < ?hi" by simp
  with s b have "x ! (?hi - 1) < x ! ?hi"
    by (simp add: sorted_wrt_iff_nth_less)
  then have ne: "x ! ?hi - x ! (?hi - 1) \<noteq> 0" by simp
  from b l have n: "map Some ys ! ?hi = Some (ys ! ?hi)"
    "map Some ys ! (?hi - 1) = Some (ys ! (?hi - 1))"
    by simp_all
  show ?thesis
    unfolding interp1d_call_def Let_def
    using ne n by simp
qed

lemma interp1d_node:
  assumes s: "sorted_wrt (<) x" and l: "2 \<le> length x" "length ys = length x"
    and i: "i < length x"
  shows "interp1d_call \<lparr> interp_x = x, interp_y = map Some ys \<rparr> (x ! i) = Some (ys ! i)"
proof (cases i)
  case 0
  with l have "clip (searchsorted x (x ! i)) 1 (length x - 1) = 1"
    using searchsorted_node[OF s i] by (simp add: clip_def)
  with 0 show ?thesis
    unfolding interp1d_call_finite[OF s l] by (simp add: Let_def)
next
  case (Suc k)
  with i have h: "clip (searchsorted x (x ! i)) 1 (length x - 1) = Suc k"
    using searchsorted_node[OF s i] by (simp add: clip_def)
  from s i Suc have "x ! k < x ! Suc k" by (simp add: sorted_wrt_iff_nth_less)
  then have "x ! Suc k - x ! k \<noteq> 0" by simp
  then show ?thesis
    unfolding interp1d_call_finite[OF s l] Let_def h unfolding Suc by simp
qed

subsection \<open>The comoving-distance table\<close>
lemma trapezoid_steps_r_pos:
  "sorted_wrt (<) x \<Longrightarrow> list_all (\<lambda>v. 0 < v) y \<Longrightarrow>
     list_all (\<lambda>v. 0 < v) (trapezoid_steps_r x y)"
  by (induction x y rule: trapezoid_steps_r.induct) (auto simp: add_pos_pos)

lemma cumsum_r_ge: "list_all (\<lambda>v. 0 < v) ts \<Longrightarrow> list_all (\<lambda>v. acc < v) (cumsum_r acc ts)"
proof (induction ts arbitrary: acc)
  case (Cons t ts)
  then have "list_all (\<lambda>v. acc + t < v) (cumsum_r (acc + t) ts)" by simp
  moreover from Cons.prems have "acc < acc + t" by simp
  ultimately show ?case by (auto simp: list_all_iff)
qed simp

lemma cumsum_r_sorted:
  "list_all (\<lambda>v. 0 < v) ts \<Longrightarrow> sorted_wrt (<) (acc # cumsum_r acc ts)"
proof (induction ts arbitrary: acc)
  case (Cons t ts)
  then have "sorted_wrt (<) ((acc + t) # cumsum_r (acc + t) ts)" by simp
  moreover from Cons.prems have "list_all (\<lambda>v. acc < v) (cumsum_r acc (t # ts))"
    by (rule cumsum_r_ge)
  ultimately show ?case by (auto simp: list_all_iff)
qed simp

lemma hz_r_pos: "0 < h0 \<Longrightarrow> 0 < rad_r om w0' wa' xi' a \<Longrightarrow> 0 < hz_r h0 om w0' wa' xi' a"
  by (simp add: hz_r_def)

lemma dc_table_sorted:
  assumes wf: "wf_data d" and ok: "grid_ok h0 om d w0' wa' xi'" and h: "0 < h0"
  shows "sorted_wrt (<) (dc_table h0 om d w0' wa' xi')"
proof -
  from ok h have "list_all (\<lambda>v. 0 < v) (map (\<lambda>a. 1 / hz_r h0 om w0' wa' xi' a) (a_grid d))"
    by (auto simp: grid_ok_def list_all_iff hz_r_pos)
  with wf have "list_all (\<lambda>v. 0 < v) (trapezoid_steps_r (z_grid d)
           (map (\<lambda>a. 1 / hz_r h0 om w0' wa' xi' a) (a_grid d)))"
    by (intro trapezoid_steps_r_pos) (simp_all add: wf_data_def)
  then show ?thesis
    unfolding dc_table_def by (rule cumsum_r_sorted)
qed

lemma dc_table_0: "dc_table h0 om d w0' wa' xi' ! 0 = 0"
  by (simp add: dc_table_def)

subsection \<open>Parameters for which the construction succeeds\<close>
lemma a_grid_data_range: "a \<in> set (a_grid data) \<Longrightarrow> 0 < a \<and> a < 1"
  using zf_pos by (auto simp: a_grid_data add_pos_pos)

lemma rad_r_valid: "0 < a \<Longrightarrow> 0 < om \<Longrightarrow> om < 1 \<Longrightarrow> 0 < rad_r om w0' wa' xi' a"
  by (simp add: rad_r_def add_pos_pos)

lemma grid_ok_valid: "h0 \<noteq> 0 \<Longrightarrow> 0 < om \<Longrightarrow> om < 1 \<Longrightarrow> grid_ok h0 om data w0' wa' xi'"
  using a_grid_data_range by (auto simp: grid_ok_def list_all_iff rad_r_valid)

lemma rad_r_baseline: "0 < a \<Longrightarrow> rad_r om (- 1) 0 0 a = om / a ^ 3 + (1 - om)"
  by (simp add: rad_r_def w_de_def)

lemma grid_ok_Om_large: "h0 \<noteq> 0 \<Longrightarrow> 1 \<le> om \<Longrightarrow> grid_ok h0 om data (- 1) 0 0"
proof -
  assume h: "h0 \<noteq> 0" and om: "1 \<le> om"
  have "0 < rad_r om (- 1) 0 0 a" if a: "a \<in> set (a_grid data)" for a
  proof -
    from a have r: "0 < a" "a < 1" using a_grid_data_range by auto
    then have "a ^ 3 < 1" by (simp add: power_less_one_iff)
    moreover from r have "0 < a ^ 3" by simp
    ultimately have "1 < 1 / a ^ 3" by simp
    with om have "om * 1 < om * (1 / a ^ 3)"
      by (intro mult_strict_left_mono) simp_all
    with om r show ?thesis by (simp add: rad_r_baseline)
  qed
  with h show ?thesis by (auto simp: grid_ok_def list_all_iff)
qed

subsection \<open>The engine built on the program's grid\<close>

lemma length_z_grid_data: "length (z_grid data) = 1000"
  by (simp add: z_grid_data N_Z_GRID_POINTS_def)

lemma nth_z_grid_data: "i < 1000 \<Longrightarrow> z_grid data ! i = zf i"
  by (simp add: z_grid_data N_Z_GRID_POINTS_def)

lemma nth_a_grid_data: "i < 1000 \<Longrightarrow> a_grid data ! i = 1 / (1 + zf i)"
  by (simp add: a_grid_data N_Z_GRID_POINTS_def)

lemma zf_last: "zf 999 = 5"
proof -
  have "- 3 + real 999 * ((log 10 5 - (- 3)) / real (N_Z_GRID_POINTS - 1)) = log 10 5"
    by (simp add: N_Z_GRID_POINTS_def field_simps)
  then show ?thesis unfolding zf_def by simp
qed

lemma init_data:
  "BaseModel_init h0 om data w0' wa' xi' =
     (if grid_ok h0 om data w0' wa' xi' then Inr (engine h0 om data w0' wa' xi') else Inl ValueError)"
  using wf_data_data by (rule BaseModel_init_char)

lemma init_data_Inr:
  assumes "BaseModel_init h0 om data w0' wa' xi' = Inr m"
  shows "m = engine h0 om data w0' wa' xi'" and "grid_ok h0 om data w0' wa' xi'"
  using assms by (simp_all add: init_data split: if_splits)

lemma Dc_engine: "Dc (engine h0 om d w0' wa' xi') z = ppoly_call (pchip (z_grid d) (dc_table h0 om d w0' wa' xi')) z"
  by (simp add: Dc_def engine_def)

lemma DL_engine: "DL (engine h0 om d w0' wa' xi') z = ppoly_call (pchip (z_grid d) (dl_table h0 om d w0' wa' xi')) z"
  by (simp add: DL_def engine_def)

lemma H_engine: "H (engine h0 om d w0' wa' xi') z =
    interp1d_call \<lparr> interp_x = z_grid d,
       interp_y = map Some (map (hz_r h0 om w0' wa' xi') (a_grid d)) \<rparr> z"
  by (simp add: H_def engine_def comp_def)

lemma Dc_node:
  "wf_data d \<Longrightarrow> i < length (z_grid d) \<Longrightarrow>
     Dc (engine h0 om d w0' wa' xi') (z_grid d ! i) = Some (dc_table h0 om d w0' wa' xi' ! i)"
  unfolding Dc_engine by (rule pchip_node) (simp_all add: wf_data_def length_dc_table)

lemma DL_node:
  "wf_data d \<Longrightarrow> i < length (z_grid d) \<Longrightarrow>
     DL (engine h0 om d w0' wa' xi') (z_grid d ! i) = Some (dl_table h0 om d w0' wa' xi' ! i)"
  unfolding DL_engine by (rule pchip_node) (simp_all add: wf_data_def length_dl_table)

lemma H_node:
  "wf_data d \<Longrightarrow> i < length (z_grid d) \<Longrightarrow>
     H (engine h0 om d w0' wa' xi') (z_grid d ! i) = Some (hz_r h0 om w0' wa' xi' (a_grid d ! i))"
proof -
  assume wf: "wf_data d" and i: "i < length (z_grid d)"
  then have "interp1d_call \<lparr> interp_x = z_grid d,
       interp_y = map Some (map (hz_r h0 om w0' wa' xi') (a_grid d)) \<rparr> (z_grid d ! i)
      = Some (map (hz_r h0 om w0' wa' xi') (a_grid d) ! i)"
    by (intro interp1d_node) (simp_all add: wf_data_def)
  with wf i show ?thesis unfolding H_engine by (simp add: wf_data_def)
qed

lemma nth_dl_table:
  "wf_data d \<Longrightarrow> i < length (z_grid d) \<Longrightarrow>
     dl_table h0 om d w0' wa' xi' ! i
       = (1 + z_grid d ! i) * c d * (dc_table h0 om d w0' wa' xi' ! i) / 100000"
  by (simp add: dl_table_def length_dc_table)

lemma H_finite: "wf_data d \<Longrightarrow> isfinite (H (engine h0 om d w0' wa' xi') z)"
proof -
  assume wf: "wf_data d"
  then have "\<exists>v. interp1d_call \<lparr> interp_x = z_grid d,
       interp_y = map Some (map (hz_r h0 om w0' wa' xi') (a_grid d)) \<rparr> z = Some v"
    by (subst interp1d_call_finite) (simp_all add: wf_data_def)
  then show ?thesis unfolding H_engine by auto
qed

subsection \<open>Evaluation outside the breakpoints\<close>

lemma searchsorted_below:
  "x \<noteq> [] \<Longrightarrow> v \<le> x ! 0 \<Longrightarrow> searchsorted x v = 0"
  by (cases x) (simp_all add: searchsorted_def)

lemma H_below_grid:
  assumes wf: "wf_data d" and v: "v \<le> z_grid d ! 0"
  shows "H (engine h0 om d w0' wa' xi') v =
     Some ((hz_r h0 om w0' wa' xi' (a_grid d ! 1) - hz_r h0 om w0' wa' xi' (a_grid d ! 0))
             / (z_grid d ! 1 - z_grid d ! 0) * (v - z_grid d ! 0)
           + hz_r h0 om w0' wa' xi' (a_grid d ! 0))"
proof -
  from wf have l: "2 \<le> length (z_grid d)" "length (a_grid d) = length (z_grid d)"
    and s: "sorted_wrt (<) (z_grid d)"
    by (simp_all add: wf_data_def)
  from l(1) have ne: "z_grid d \<noteq> []" by auto
  have ss: "searchsorted (z_grid d) v = 0"
    using ne v by (rule searchsorted_below)
  from l have cl: "clip 0 1 (length (z_grid d) - 1) = 1" by (simp add: clip_def)
  from l have l0: "0 < length (a_grid d)" "Suc 0 < length (a_grid d)" by linarith+
  have "interp1d_call \<lparr> interp_x = z_grid d,
       interp_y = map Some (map (hz_r h0 om w0' wa' xi') (a_grid d)) \<rparr> v =
     Some (let hi = clip (searchsorted (z_grid d) v) 1 (length (z_grid d) - 1); lo = hi - 1
           in (map (hz_r h0 om w0' wa' xi') (a_grid d) ! hi
                 - map (hz_r h0 om w0' wa' xi') (a_grid d) ! lo)
                / (z_grid d ! hi - z_grid d ! lo) * (v - z_grid d ! lo)
              + map (hz_r h0 om w0' wa' xi') (a_grid d) ! lo)"
    using s l by (intro interp1d_call_finite) simp_all
  then show ?thesis
    unfolding H_engine ss cl Let_def using l0 by simp
qed

lemma find_interval_below:
  assumes "sorted_wrt (<) x" "2 \<le> length x" "v < x ! 0"
  shows "find_interval x v = 0"
proof (rule find_interval_between)
  show "sorted_wrt (<) x" by fact
  show "Suc 0 < length x" using assms(2) by simp
  show "0 = 0 \<or> x ! 0 \<le> v" by simp
  have "x ! 0 < x ! Suc 0" using assms(1,2) by (simp add: sorted_wrt_iff_nth_less)
  with assms(3) show "Suc (Suc 0) = length x \<or> v < x ! Suc 0" by simp
qed

lemma find_interval_above:
  assumes "sorted_wrt (<) x" "2 \<le> length x" "x ! (length x - 1) \<le> v"
  shows "find_interval x v = length x - 2"
proof (rule find_interval_between)
  show "sorted_wrt (<) x" by fact
  show "Suc (length x - 2) < length x" using assms(2) by simp
  have "x ! (length x - 2) < x ! (length x - 1)"
    using assms(1,2) by (simp add: sorted_wrt_iff_nth_less)
  with assms(3) show "length x - 2 = 0 \<or> x ! (length x - 2) \<le> v" by simp
  from assms(2) have "Suc (Suc (length x - 2)) = length x" by arith
  then show "Suc (Suc (length x - 2)) = length x \<or> v < x ! Suc (length x - 2)" ..
qed

lemma searchsorted_above:
  assumes "sorted_wrt (<) x" "x \<noteq> []" "x ! (length x - 1) < v"
  shows "searchsorted x v = length x"
  unfolding searchsorted_def
proof (rule length_takeWhile_sorted)
  fix j assume j: "j < length x"
  have "x ! j \<le> x ! (length x - 1)"
  proof (cases "j = length x - 1")
    case True then show ?thesis by simp
  next
    case False
    with j have "j < length x - 1" by simp
    with assms(1,2) have "x ! j < x ! (length x - 1)"
      by (simp add: sorted_wrt_iff_nth_less)
    then show ?thesis by simp
  qed
  with assms(3) show "x ! j < v" by simp
qed simp_all

lemma H_above_grid:
  assumes wf: "wf_data d" and v: "z_grid d ! (length (z_grid d) - 1) < v"
  shows "H (engine h0 om d w0' wa' xi') v =
     Some ((hz_r h0 om w0' wa' xi' (a_grid d ! (length (z_grid d) - 1))
              - hz_r h0 om w0' wa' xi' (a_grid d ! (length (z_grid d) - 2)))
             / (z_grid d ! (length (z_grid d) - 1) - z_grid d ! (length (z_grid d) - 2))
             * (v - z_grid d ! (length (z_grid d) - 2))
           + hz_r h0 om w0' wa' xi' (a_grid d ! (length (z_grid d) - 2)))"
proof -
  from wf have l: "2 \<le> length (z_grid d)" "length (a_grid d) = length (z_grid d)"
    and s: "sorted_wrt (<) (z_grid d)"
    by (simp_all add: wf_data_def)
  from l(1) have ne: "z_grid d \<noteq> []" by auto
  have ss: "searchsorted (z_grid d) v = length (z_grid d)"
    using s ne v by (rule searchsorted_above)
  from l have cl: "clip (length (z_grid d)) 1 (length (z_grid d) - 1) = length (z_grid d) - 1"
    by (simp add: clip_def)
  from l have e: "length (z_grid d) - 1 - 1 = length (z_grid d) - 2" by simp
  from l have l0: "length (z_grid d) - 1 < length (a_grid d)"
    "length (z_grid d) - 2 < length (a_grid d)" by linarith+
  have "interp1d_call \<lparr> interp_x = z_grid d,
       interp_y = map Some (map (hz_r h0 om w0' wa' xi') (a_grid d)) \<rparr> v =
     Some (let hi = clip (searchsorted (z_grid d) v) 1 (length (z_grid d) - 1); lo = hi - 1
           in (map (hz_r h0 om w0' wa' xi') (a_grid d) ! hi
                 - map (hz_r h0 om w0' wa' xi') (a_grid d) ! lo)
                / (z_grid d ! hi - z_grid d ! lo) * (v - z_grid d ! lo)
              + map (hz_r h0 om w0' wa' xi') (a_grid d) ! lo)"
    using s l by (intro interp1d_call_finite) simp_all
  then show ?thesis
    unfolding H_engine ss cl Let_def e using l0 by simp
qed

lemma Dc_interp_engine:
  "Dc_interp (engine h0 om d w0' wa' xi') = pchip (z_grid d) (dc_table h0 om d w0' wa' xi')"
  "DL_interp (engine h0 om d w0' wa' xi') = pchip (z_grid d) (dl_table h0 om d w0' wa' xi')"
  "hz_grid (engine h0 om d w0' wa' xi') = map (\<lambda>a. Some (hz_r h0 om w0' wa' xi' a)) (a_grid d)"
  by (simp_all add: engine_def)

lemma ppoly_call_extended:
  assumes "sorted_wrt (<) x" "2 \<le> length x"
  shows "v < x ! 0 \<Longrightarrow>
           ppoly_call (pchip x y) v = Some (evaluate_piece (ppoly_c (pchip x y) ! 0) (v - x ! 0))"
    and "x ! (length x - 1) \<le> v \<Longrightarrow>
           ppoly_call (pchip x y) v
             = Some (evaluate_piece (ppoly_c (pchip x y) ! (length x - 2)) (v - x ! (length x - 2)))"
proof -
  have c: "ppoly_c (pchip x y) = hermite_coefficients x y (find_derivatives x y)"
    by (simp add: pchip_def)
  show "v < x ! 0 \<Longrightarrow>
           ppoly_call (pchip x y) v = Some (evaluate_piece (ppoly_c (pchip x y) ! 0) (v - x ! 0))"
    unfolding ppoly_call_pchip c using find_interval_below[OF assms] by simp
  show "x ! (length x - 1) \<le> v \<Longrightarrow>
           ppoly_call (pchip x y) v
             = Some (evaluate_piece (ppoly_c (pchip x y) ! (length x - 2)) (v - x ! (length x - 2)))"
    unfolding ppoly_call_pchip c using find_interval_above[OF assms] by simp
qed

section \<open>The interacting model at baseline parameters\<close>

text \<open>
  Claim C9.  With \<open>w0 = -1\<close>, \<open>wa = 0\<close> and \<open>xi = 0\<close> the interacting model is built
  exactly like the baseline model from the same \<open>H0\<close> and \<open>Om\<close>: either both
  constructions fail with the same error, or both succeed with the same Hubble-rate grid
  and the same three interpolators, hence with the same \<open>H\<close>, \<open>Dc\<close>, \<open>DL\<close>, \<open>mu\<close> and
  \<open>DV\<close> at every redshift.
\<close>

theorem DUT_baseline_is_LCDM:
  "(case DUT_Vectorized_init h0 om (- 1) 0 0 s d of
      Inl e \<Rightarrow> Inl e
    | Inr m \<Rightarrow> Inr (hz_grid m, Dc_interp m, DL_interp m, Hz_interp m,
                    H m z, Dc m z, DL m z, mu m z, DV m z))
   = (case LCDM_Vectorized_init h0 om s d of
      Inl e \<Rightarrow> Inl e
    | Inr m \<Rightarrow> Inr (hz_grid m, Dc_interp m, DL_interp m, Hz_interp m,
                    H m z, Dc m z, DL m z, mu m z, DV m z))"
  by (cases "BaseModel_init h0 om d (- 1) 0 0")
     (simp_all add: DUT_Vectorized_init_def LCDM_Vectorized_init_def
        H_def Dc_def DL_def mu_def DV_def BaseModel.extend_def)

section \<open>Luminosity distance and distance modulus\<close>

lemma mu_finite_iff: "isfinite (mu m z) \<longleftrightarrow> (\<exists>dl. DL m z = Some dl \<and> 0 < dl)"
  by (cases "DL m z") (simp_all add: mu_def)

text \<open>
  Claim C10.  For every constructed engine, the luminosity distance at the first grid
  point \<open>z = 1/1000\<close> is exactly 0, so the distance modulus there is not a finite number;
  and wherever the distance modulus is finite, the luminosity distance is positive.
\<close>

theorem mu_diverges_at_first_grid_point:
  assumes "BaseModel_init h0 om data w0' wa' xi' = Inr m"
  shows "z_grid data ! 0 = 1 / 1000 \<and> DL m (1 / 1000) = Some 0
       \<and> \<not> isfinite (mu m (1 / 1000))
       \<and> (\<forall>z. isfinite (mu m z) \<longrightarrow> (\<exists>dl. DL m z = Some dl \<and> 0 < dl))"
proof -
  from assms have m: "m = engine h0 om data w0' wa' xi'" by (rule init_data_Inr)
  have z0: "z_grid data ! 0 = 1 / 1000" by (simp add: nth_z_grid_data zf_0)
  have "DL m (z_grid data ! 0) = Some (dl_table h0 om data w0' wa' xi' ! 0)"
    unfolding m using wf_data_data by (rule DL_node) (simp add: length_z_grid_data)
  also have "dl_table h0 om data w0' wa' xi' ! 0 = 0"
    using wf_data_data by (subst nth_dl_table) (simp_all add: length_z_grid_data dc_table_0)
  finally have dl: "DL m (1 / 1000) = Some 0" unfolding z0 .
  then have "\<not> isfinite (mu m (1 / 1000))" by (simp add: mu_finite_iff)
  with z0 dl show ?thesis by (simp add: mu_finite_iff)
qed

lemma baseline_ok: "grid_ok lcdm_H0 lcdm_Om data (- 1) 0 0"
  by (rule grid_ok_valid) (simp_all add: lcdm_H0_def lcdm_Om_def)

lemma lcdm_H0_pos: "0 < lcdm_H0"
  by (simp add: lcdm_H0_def)

lemma baseline_init:
  "BaseModel_init lcdm_H0 lcdm_Om data (- 1) 0 0
     = Inr (engine lcdm_H0 lcdm_Om data (- 1) 0 0)"
  by (simp add: init_data baseline_ok)

theorem mu_diverges_at_first_grid_point_witness:
  "BaseModel_init lcdm_H0 lcdm_Om data (- 1) 0 0
     = Inr (engine lcdm_H0 lcdm_Om data (- 1) 0 0)
   \<and> DL (engine lcdm_H0 lcdm_Om data (- 1) 0 0) (1 / 1000) = Some 0
   \<and> \<not> isfinite (mu (engine lcdm_H0 lcdm_Om data (- 1) 0 0) (1 / 1000))"
  using mu_diverges_at_first_grid_point[OF baseline_init] baseline_init by simp

text \<open>
  Claim C3, as amended.  At every grid point the luminosity-distance interpolator returns
  \<open>(1 + z) * c * Dc(z) / 100000\<close>: the table it is built from carries the divisor
  \<open>1e5\<close>, so the value is not \<open>(1 + z) * c * Dc(z)\<close>.
\<close>

theorem DL_at_grid_points:
  assumes "BaseModel_init h0 om data w0' wa' xi' = Inr m" and "i < length (z_grid data)"
  shows "\<exists>dc. Dc m (z_grid data ! i) = Some dc
            \<and> DL m (z_grid data ! i) = Some ((1 + z_grid data ! i) * c data * dc / 100000)"
proof -
  from assms have m: "m = engine h0 om data w0' wa' xi'" by (simp add: init_data_Inr)
  show ?thesis
    unfolding m using wf_data_data assms(2)
    by (simp add: Dc_node DL_node nth_dl_table)
qed

theorem DL_at_grid_points_witness:
  "BaseModel_init lcdm_H0 lcdm_Om data (- 1) 0 0
     = Inr (engine lcdm_H0 lcdm_Om data (- 1) 0 0)
   \<and> 1 < length (z_grid data)
   \<and> (\<exists>dc. Dc (engine lcdm_H0 lcdm_Om data (- 1) 0 0) (z_grid data ! 1) = Some dc
         \<and> DL (engine lcdm_H0 lcdm_Om data (- 1) 0 0) (z_grid data ! 1)
             = Some ((1 + z_grid data ! 1) * c data * dc / 100000))"
proof -
  have l: "1 < length (z_grid data)" by (simp add: length_z_grid_data)
  show ?thesis
    using DL_at_grid_points[OF baseline_init l] baseline_init l by simp
qed

lemma dc_table_pos:
  assumes wf: "wf_data d" and ok: "grid_ok h0 om d w0' wa' xi'" and h: "0 < h0"
    and i: "0 < i" "i < length (z_grid d)"
  shows "0 < dc_table h0 om d w0' wa' xi' ! i"
proof -
  have "sorted_wrt (<) (dc_table h0 om d w0' wa' xi')"
    using wf ok h by (rule dc_table_sorted)
  with i wf have "dc_table h0 om d w0' wa' xi' ! 0 < dc_table h0 om d w0' wa' xi' ! i"
    by (simp add: sorted_wrt_iff_nth_less length_dc_table)
  then show ?thesis by (simp add: dc_table_0)
qed

text \<open>
  The relation of claim C3 as stated, with relative tolerance \<open>1e-9\<close>, fails for the
  best-fit baseline engine at the second grid point, where the comoving distance is
  positive.
\<close>

theorem DL_relation_counterexample:
  "BaseModel_init lcdm_H0 lcdm_Om data (- 1) 0 0
     = Inr (engine lcdm_H0 lcdm_Om data (- 1) 0 0)
   \<and> \<not> DL_relation_spec (engine lcdm_H0 lcdm_Om data (- 1) 0 0)
         (z_grid data ! 1) (1 / 10 ^ 9)"
proof -
  let ?m = "engine lcdm_H0 lcdm_Om data (- 1) 0 0"
  let ?dc = "dc_table lcdm_H0 lcdm_Om data (- 1) 0 0 ! 1"
  let ?X = "(1 + z_grid data ! 1) * c data * ?dc"
  have l: "1 < length (z_grid data)" by (simp add: length_z_grid_data)
  have dc: "Dc ?m (z_grid data ! 1) = Some ?dc"
    using wf_data_data l by (rule Dc_node)
  have dl: "DL ?m (z_grid data ! 1) = Some (?X / 100000)"
    by (subst DL_node[OF wf_data_data l], subst nth_dl_table[OF wf_data_data l], rule refl)
  have "0 < ?dc"
    using wf_data_data baseline_ok lcdm_H0_pos _ l by (rule dc_table_pos) simp
  moreover have "0 < z_grid data ! 1" by (simp add: nth_z_grid_data zf_pos)
  ultimately have X: "0 < ?X" by (simp add: c_data)
  have "\<bar>?X / 100000 - ?X\<bar> = ?X * (99999 / 100000)"
    using X by (simp add: abs_if field_simps)
  moreover have "?X * (1 / 10 ^ 9) < ?X * (99999 / 100000)"
    using X by (intro mult_strict_left_mono) simp_all
  ultimately have "\<not> \<bar>?X / 100000 - ?X\<bar> \<le> 1 / 10 ^ 9 * \<bar>?X\<bar>"
    using X by (simp add: mult.commute)
  moreover have "model_data ?m = data" by (simp add: engine_def)
  ultimately show ?thesis
    unfolding DL_relation_spec_def dc dl using baseline_init by simp
qed

section \<open>Evaluation outside the grid\<close>

lemma moderate_valid:
  assumes "moderate h0 om w0' wa' xi'"
  shows "0 < h0" and "0 < om" and "om < 1" and "grid_ok h0 om data w0' wa' xi'"
proof -
  have "(0 :: real) < 1 / 10 ^ 100" by simp
  with assms show h: "0 < h0" unfolding moderate_def by linarith
  from assms show om: "0 < om" "om < 1" by (simp_all add: moderate_def)
  from h om show "grid_ok h0 om data w0' wa' xi'" by (intro grid_ok_valid) simp_all
qed

lemma moderate_lcdm: "moderate lcdm_H0 lcdm_Om (- 1) 0 0"
  by (simp add: moderate_def lcdm_H0_def lcdm_Om_def)

text \<open>
  Claim C4, as amended.  Both distance interpolators are built with extrapolation
  switched on, like the Hubble-rate interpolator, and no evaluation fails with a domain
  error.  For parameters of moderate size and a redshift of magnitude at most 1000
  outside the grid bounds \<open>1/1000\<close> and \<open>5\<close> (in real arithmetic), \<open>Dc\<close> and \<open>DL\<close>
  return the value of the first cubic piece, below the grid, or of the last one, above
  it, continued to that redshift, and \<open>H\<close> returns the value there of the line through
  the first two, respectively the last two, grid values.
\<close>

theorem interpolators_extrapolate:
  assumes "moderate h0 om w0' wa' xi'" and "\<bar>z\<bar> \<le> 1000"
  shows "\<exists>m. BaseModel_init h0 om data w0' wa' xi' = Inr m
     \<and> extrapolate (Dc_interp m) \<and> extrapolate (DL_interp m)
     \<and> z_grid data ! 0 = 1 / 1000 \<and> z_grid data ! 999 = 5
     \<and> (z < z_grid data ! 0 \<longrightarrow>
          Dc m z = Some (evaluate_piece (ppoly_c (Dc_interp m) ! 0) (z - z_grid data ! 0))
        \<and> DL m z = Some (evaluate_piece (ppoly_c (DL_interp m) ! 0) (z - z_grid data ! 0))
        \<and> (\<exists>y0 y1. hz_grid m ! 0 = Some y0 \<and> hz_grid m ! 1 = Some y1
              \<and> H m z = Some ((y1 - y0) / (z_grid data ! 1 - z_grid data ! 0)
                                * (z - z_grid data ! 0) + y0)))
     \<and> (z_grid data ! 999 < z \<longrightarrow>
          Dc m z = Some (evaluate_piece (ppoly_c (Dc_interp m) ! 998) (z - z_grid data ! 998))
        \<and> DL m z = Some (evaluate_piece (ppoly_c (DL_interp m) ! 998) (z - z_grid data ! 998))
        \<and> (\<exists>y0 y1. hz_grid m ! 998 = Some y0 \<and> hz_grid m ! 999 = Some y1
              \<and> H m z = Some ((y1 - y0) / (z_grid data ! 999 - z_grid data ! 998)
                                * (z - z_grid data ! 998) + y0)))"
proof -
  let ?m = "engine h0 om data w0' wa' xi'"
  from assms(1) have ok: "grid_ok h0 om data w0' wa' xi'" by (rule moderate_valid)
  then have init: "BaseModel_init h0 om data w0' wa' xi' = Inr ?m" by (simp add: init_data)
  have s: "sorted_wrt (<) (z_grid data)" by (rule z_grid_sorted)
  have l: "2 \<le> length (z_grid data)" by (simp add: length_z_grid_data)
  have n: "length (z_grid data) - 1 = 999" "length (z_grid data) - 2 = 998"
    by (simp_all add: length_z_grid_data)
  have la: "length (a_grid data) = 1000"
    using wf_data_data by (simp add: wf_data_def length_z_grid_data)
  have ex: "extrapolate (Dc_interp ?m)" "extrapolate (DL_interp ?m)"
    by (simp_all add: engine_def pchip_def)
  have z0: "z_grid data ! 0 = 1 / 1000" by (simp add: nth_z_grid_data zf_0)
  have zl: "z_grid data ! 999 = 5" by (simp add: nth_z_grid_data zf_last)
  have below: "Dc ?m z = Some (evaluate_piece (ppoly_c (Dc_interp ?m) ! 0) (z - z_grid data ! 0))
        \<and> DL ?m z = Some (evaluate_piece (ppoly_c (DL_interp ?m) ! 0) (z - z_grid data ! 0))
        \<and> (\<exists>y0 y1. hz_grid ?m ! 0 = Some y0 \<and> hz_grid ?m ! 1 = Some y1
              \<and> H ?m z = Some ((y1 - y0) / (z_grid data ! 1 - z_grid data ! 0)
                                * (z - z_grid data ! 0) + y0))"
    if b: "z < z_grid data ! 0"
  proof -
    from b have b': "z \<le> z_grid data ! 0" by simp
    have "Dc ?m z = Some (evaluate_piece (ppoly_c (Dc_interp ?m) ! 0) (z - z_grid data ! 0))"
      unfolding Dc_engine Dc_interp_engine using s l b by (rule ppoly_call_extended(1))
    moreover have "DL ?m z = Some (evaluate_piece (ppoly_c (DL_interp ?m) ! 0) (z - z_grid data ! 0))"
      unfolding DL_engine Dc_interp_engine using s l b by (rule ppoly_call_extended(1))
    moreover have "hz_grid ?m ! 0 = Some (hz_r h0 om w0' wa' xi' (a_grid data ! 0))"
      "hz_grid ?m ! 1 = Some (hz_r h0 om w0' wa' xi' (a_grid data ! 1))"
      unfolding Dc_interp_engine using la by simp_all
    moreover note H_below_grid[OF wf_data_data b', of h0 om w0' wa' xi']
    ultimately show ?thesis by blast
  qed
  have above: "Dc ?m z = Some (evaluate_piece (ppoly_c (Dc_interp ?m) ! 998) (z - z_grid data ! 998))
        \<and> DL ?m z = Some (evaluate_piece (ppoly_c (DL_interp ?m) ! 998) (z - z_grid data ! 998))
        \<and> (\<exists>y0 y1. hz_grid ?m ! 998 = Some y0 \<and> hz_grid ?m ! 999 = Some y1
              \<and> H ?m z = Some ((y1 - y0) / (z_grid data ! 999 - z_grid data ! 998)
                                * (z - z_grid data ! 998) + y0))"
    if b: "z_grid data ! 999 < z"
  proof -
    from b have b1: "z_grid data ! (length (z_grid data) - 1) \<le> z"
      and b2: "z_grid data ! (length (z_grid data) - 1) < z" unfolding n by simp_all
    have "Dc ?m z = Some (evaluate_piece (ppoly_c (Dc_interp ?m) ! 998) (z - z_grid data ! 998))"
      unfolding Dc_engine Dc_interp_engine
      using ppoly_call_extended(2)[OF s l b1] unfolding n .
    moreover have "DL ?m z = Some (evaluate_piece (ppoly_c (DL_interp ?m) ! 998) (z - z_grid data ! 998))"
      unfolding DL_engine Dc_interp_engine
      using ppoly_call_extended(2)[OF s l b1] unfolding n .
    moreover have "hz_grid ?m ! 998 = Some (hz_r h0 om w0' wa' xi' (a_grid data ! 998))"
      "hz_grid ?m ! 999 = Some (hz_r h0 om w0' wa' xi' (a_grid data ! 999))"
      unfolding Dc_interp_engine using la by simp_all
    moreover note H_above_grid[OF wf_data_data b2, of h0 om w0' wa' xi', unfolded n]
    ultimately show ?thesis by blast
  qed
  from init ex z0 zl below above show ?thesis by blast
qed

theorem interpolators_extrapolate_witness:
  "moderate lcdm_H0 lcdm_Om (- 1) 0 0 \<and> \<bar>6 :: real\<bar> \<le> 1000 \<and> z_grid data ! 999 < 6
   \<and> (\<exists>m. BaseModel_init lcdm_H0 lcdm_Om data (- 1) 0 0 = Inr m
         \<and> Dc m 6 = Some (evaluate_piece (ppoly_c (Dc_interp m) ! 998) (6 - z_grid data ! 998))
         \<and> DL m 6 = Some (evaluate_piece (ppoly_c (DL_interp m) ! 998) (6 - z_grid data ! 998))
         \<and> (\<exists>y0 y1. hz_grid m ! 998 = Some y0 \<and> hz_grid m ! 999 = Some y1
              \<and> H m 6 = Some ((y1 - y0) / (z_grid data ! 999 - z_grid data ! 998)
                                * (6 - z_grid data ! 998) + y0)))"
proof -
  have a: "\<bar>6 :: real\<bar> \<le> 1000" by simp
  have b: "z_grid data ! 999 < 6" by (simp add: nth_z_grid_data zf_last)
  from interpolators_extrapolate[OF moderate_lcdm a] b moderate_lcdm a show ?thesis
    by blast
qed

text \<open>
  Claim C4 as stated fails: the grid ends at \<open>z = 5\<close>, and the best-fit baseline engine
  returns numbers for \<open>Dc\<close> and \<open>DL\<close> at \<open>z = 6\<close>.
\<close>

theorem no_domain_error_counterexample:
  "BaseModel_init lcdm_H0 lcdm_Om data (- 1) 0 0
     = Inr (engine lcdm_H0 lcdm_Om data (- 1) 0 0)
   \<and> last (z_grid data) = 5 \<and> (5::real) < 6
   \<and> isfinite (Dc (engine lcdm_H0 lcdm_Om data (- 1) 0 0) 6)
   \<and> isfinite (DL (engine lcdm_H0 lcdm_Om data (- 1) 0 0) 6)"
proof -
  have "last (z_grid data) = z_grid data ! (length (z_grid data) - 1)"
    using length_z_grid_data by (intro last_conv_nth) auto
  then have "last (z_grid data) = 5"
    by (simp add: length_z_grid_data nth_z_grid_data zf_last)
  then show ?thesis
    by (simp add: baseline_init Dc_engine DL_engine ppoly_call_pchip)
qed

section \<open>What the constructors accept\<close>

lemma LCDM_init_data:
  "LCDM_Vectorized_init h0 om s data =
     (if grid_ok h0 om data (- 1) 0 0
      then Inr (BaseModel.extend (engine h0 om data (- 1) 0 0) (LCDM_Vectorized.fields s))
      else Inl ValueError)"
  by (simp add: LCDM_Vectorized_init_def init_data)

lemma DUT_init_data:
  "DUT_Vectorized_init h0 om w0' wa' xi' s data =
     (if grid_ok h0 om data w0' wa' xi'
      then Inr (BaseModel.extend (engine h0 om data w0' wa' xi') (DUT_Vectorized.fields s))
      else Inl ValueError)"
  by (simp add: DUT_Vectorized_init_def init_data)

text \<open>
  Claim C1, as amended.  The constructors validate nothing and know no
  \<open>InvalidParameters\<close> error.  A construction fails, with the \<open>ValueError\<close> of the
  interpolation library, when \<open>H0 = 0\<close> or the radicand
  \<open>Om / a^3 + (1 - Om) * rho_DE(a)\<close> is negative at some grid point.  A matter density
  outside \<open>(0,1)\<close>, a negative \<open>H0\<close> and a negative \<open>s8\<close> are not refused: for
  \<open>0 < Om \<le> 1000\<close>, \<open>1e-100 \<le> |H0| \<le> 1e100\<close> and every \<open>s8\<close> (in real arithmetic)
  the baseline construction succeeds and stores the three parameters as they are given.
\<close>

theorem construction_outcome:
  "(h0 = 0 \<or> list_ex (\<lambda>a. om / a ^ 3
                    + (1 - om) * a powr (- 3 * (1 + (w0' + wa' * (1 - a)) + xi')) < 0) (a_grid data)
      \<longrightarrow> BaseModel_init h0 om data w0' wa' xi' = Inl ValueError
        \<and> DUT_Vectorized_init h0 om w0' wa' xi' s data = Inl ValueError)
   \<and> (h0 = 0 \<or> list_ex (\<lambda>a. om / a ^ 3 + (1 - om) < 0) (a_grid data)
      \<longrightarrow> LCDM_Vectorized_init h0 om s data = Inl ValueError)
   \<and> (1 / 10 ^ 100 \<le> \<bar>h0\<bar> \<and> \<bar>h0\<bar> \<le> 10 ^ 100 \<and> 0 < om \<and> om \<le> 1000
      \<longrightarrow> (\<exists>m. LCDM_Vectorized_init h0 om s data = Inr m
               \<and> H0 m = h0 \<and> Om m = om \<and> LCDM_Vectorized.s8 m = s)
        \<and> (\<exists>m. DUT_Vectorized_init h0 om (- 1) 0 0 s data = Inr m
               \<and> H0 m = h0 \<and> Om m = om \<and> DUT_Vectorized.s8 m = s))"
proof -
  have fail: "\<not> grid_ok h0 om data w0'' wa'' xi''"
    if "h0 = 0 \<or> list_ex (\<lambda>a. om / a ^ 3
                    + (1 - om) * a powr (- 3 * (1 + (w0'' + wa'' * (1 - a)) + xi'')) < 0) (a_grid data)"
    for w0'' wa'' xi''
  proof
    assume g: "grid_ok h0 om data w0'' wa'' xi''"
    then have h: "h0 \<noteq> 0"
      and pos: "\<And>a. a \<in> set (a_grid data) \<Longrightarrow> 0 < rad_r om w0'' wa'' xi'' a"
      by (simp_all add: grid_ok_def list_all_iff)
    from that h obtain a where a: "a \<in> set (a_grid data)"
      "om / a ^ 3 + (1 - om) * a powr (- 3 * (1 + (w0'' + wa'' * (1 - a)) + xi'')) < 0"
      by (auto simp: list_ex_iff)
    from a(2) have "rad_r om w0'' wa'' xi'' a < 0" by (simp only: rad_r_def w_de_def)
    with pos[OF a(1)] show False by simp
  qed
  have one: "BaseModel_init h0 om data w0' wa' xi' = Inl ValueError
        \<and> DUT_Vectorized_init h0 om w0' wa' xi' s data = Inl ValueError"
    if "h0 = 0 \<or> list_ex (\<lambda>a. om / a ^ 3
                    + (1 - om) * a powr (- 3 * (1 + (w0' + wa' * (1 - a)) + xi')) < 0) (a_grid data)"
    using fail[OF that] by (simp add: init_data DUT_init_data)
  have two: "LCDM_Vectorized_init h0 om s data = Inl ValueError"
    if c: "h0 = 0 \<or> list_ex (\<lambda>a. om / a ^ 3 + (1 - om) < 0) (a_grid data)"
  proof -
    have "\<not> grid_ok h0 om data (- 1) 0 0"
    proof
      assume g: "grid_ok h0 om data (- 1) 0 0"
      then have h: "h0 \<noteq> 0"
        and pos: "\<And>a. a \<in> set (a_grid data) \<Longrightarrow> 0 < rad_r om (- 1) 0 0 a"
        by (simp_all add: grid_ok_def list_all_iff)
      from c h obtain a where a: "a \<in> set (a_grid data)" "om / a ^ 3 + (1 - om) < 0"
        by (auto simp: list_ex_iff)
      from a(1) have "0 < a" by (simp add: a_grid_data_range)
      then have "rad_r om (- 1) 0 0 a = om / a ^ 3 + (1 - om)" by (rule rad_r_baseline)
      with pos[OF a(1)] a(2) show False by simp
    qed
    then show ?thesis by (simp add: LCDM_init_data)
  qed
  have three: "(\<exists>m. LCDM_Vectorized_init h0 om s data = Inr m
               \<and> H0 m = h0 \<and> Om m = om \<and> LCDM_Vectorized.s8 m = s)
        \<and> (\<exists>m. DUT_Vectorized_init h0 om (- 1) 0 0 s data = Inr m
               \<and> H0 m = h0 \<and> Om m = om \<and> DUT_Vectorized.s8 m = s)"
    if r: "1 / 10 ^ 100 \<le> \<bar>h0\<bar> \<and> \<bar>h0\<bar> \<le> 10 ^ 100 \<and> 0 < om \<and> om \<le> 1000"
  proof -
    have "(0 :: real) < 1 / 10 ^ 100" by simp
    with r have h: "h0 \<noteq> 0" by auto
    have ok: "grid_ok h0 om data (- 1) 0 0"
    proof (cases "om < 1")
      case True
      with h r show ?thesis by (intro grid_ok_valid) simp_all
    next
      case False
      with h show ?thesis by (intro grid_ok_Om_large) simp_all
    qed
    then show ?thesis
      by (simp add: LCDM_init_data DUT_init_data engine_def BaseModel.extend_def
          LCDM_Vectorized.fields_def DUT_Vectorized.fields_def BaseModel.defs
          LCDM_Vectorized.defs DUT_Vectorized.defs)
  qed
  from one two three show ?thesis by blast
qed

text \<open>
  Claim C1 as stated fails: with \<open>Om = 1.5\<close> and the best-fit \<open>H0\<close> the construction
  succeeds and stores \<open>Om = 1.5\<close>.
\<close>

theorem invalid_Om_accepted_counterexample:
  "LCDM_Vectorized_init lcdm_H0 (3 / 2) lcdm_s8 data
     = Inr (BaseModel.extend (engine lcdm_H0 (3 / 2) data (- 1) 0 0)
              (LCDM_Vectorized.fields lcdm_s8))
   \<and> Om (BaseModel.extend (engine lcdm_H0 (3 / 2) data (- 1) 0 0)
              (LCDM_Vectorized.fields lcdm_s8)) = 3 / 2"
proof -
  have "grid_ok lcdm_H0 (3 / 2) data (- 1) 0 0"
    by (rule grid_ok_Om_large) (simp_all add: lcdm_H0_def)
  then show ?thesis
    by (simp add: LCDM_init_data engine_def BaseModel.extend_def)
qed

theorem construction_outcome_witness:
  "DUT_Vectorized_init 0 lcdm_Om (- 1) 0 0 lcdm_s8 data = Inl ValueError
   \<and> LCDM_Vectorized_init 0 lcdm_Om lcdm_s8 data = Inl ValueError
   \<and> 1 / 10 ^ 100 \<le> \<bar>- 1 :: real\<bar> \<and> \<bar>- 1 :: real\<bar> \<le> 10 ^ 100 \<and> (0 :: real) < 2 \<and> (2 :: real) \<le> 1000
   \<and> (\<exists>m. LCDM_Vectorized_init (- 1) 2 (- 3) data = Inr m
          \<and> H0 m = - 1 \<and> Om m = 2 \<and> LCDM_Vectorized.s8 m = - 3)"
proof -
  have r: "1 / 10 ^ 100 \<le> \<bar>- 1 :: real\<bar> \<and> \<bar>- 1 :: real\<bar> \<le> 10 ^ 100 \<and> (0 :: real) < 2 \<and> (2 :: real) \<le> 1000"
    by simp
  have d: "DUT_Vectorized_init 0 lcdm_Om (- 1) 0 0 lcdm_s8 data = Inl ValueError"
    using construction_outcome[of 0 lcdm_Om "- 1" 0 0 lcdm_s8] by simp
  have l: "LCDM_Vectorized_init 0 lcdm_Om lcdm_s8 data = Inl ValueError"
    using construction_outcome[of 0 lcdm_Om "- 1" 0 0 lcdm_s8] by simp
  have "\<exists>m. LCDM_Vectorized_init (- 1) 2 (- 3) data = Inr m
          \<and> H0 m = - 1 \<and> Om m = 2 \<and> LCDM_Vectorized.s8 m = - 3"
    using construction_outcome[of "- 1" 2 "- 1" 0 0 "- 3"] r by blast
  with d l r show ?thesis by blast
qed

section \<open>The baseline Hubble rate along the grid\<close>




section \<open>Growth rate and volume distance\<close>


lemma np_power_2: "np_power (Some x) (Some 2) = Some (x ^ 2)"
  by (simp add: powr_numeral)




lemma extend_fields [simp]:
  "H (BaseModel.extend b e) z = H b z"
  "Dc (BaseModel.extend b e) z = Dc b z"
  "DL (BaseModel.extend b e) z = DL b z"
  "H0 (BaseModel.extend b e) = H0 b"
  "Om (BaseModel.extend b e) = Om b"
  by (simp_all add: H_def Dc_def DL_def BaseModel.extend_def)





text \<open>
  Claim C2.  The method \<open>DV\<close> computes the cube root of \<open>(1 + z) * Dc(z)^2 * c / H(z)\<close>,
  where the formula of the claim has the factor \<open>z\<close> in place of \<open>1 + z\<close>.  At the second
  grid point of the best-fit baseline engine both values are finite numbers, and they
  differ.
\<close>

theorem DV_differs_from_formula:
  "BaseModel_init lcdm_H0 lcdm_Om data (- 1) 0 0 = Inr (engine lcdm_H0 lcdm_Om data (- 1) 0 0)
   \<and> isfinite (DV (engine lcdm_H0 lcdm_Om data (- 1) 0 0) (z_grid data ! 1))
   \<and> isfinite (DV_spec (engine lcdm_H0 lcdm_Om data (- 1) 0 0) (z_grid data ! 1))
   \<and> DV (engine lcdm_H0 lcdm_Om data (- 1) 0 0) (z_grid data ! 1)
       \<noteq> DV_spec (engine lcdm_H0 lcdm_Om data (- 1) 0 0) (z_grid data ! 1)"
proof -
  let ?m = "engine lcdm_H0 lcdm_Om data (- 1) 0 0"
  define z where "z = z_grid data ! 1"
  define dc where "dc = dc_table lcdm_H0 lcdm_Om data (- 1) 0 0 ! 1"
  define hz where "hz = hz_r lcdm_H0 lcdm_Om (- 1) 0 0 (a_grid data ! 1)"
  have l: "1 < length (z_grid data)" by (simp add: length_z_grid_data)
  have Dc: "Dc ?m z = Some dc"
    unfolding z_def dc_def using wf_data_data l by (rule Dc_node)
  have Hz: "H ?m z = Some hz"
    unfolding z_def hz_def using wf_data_data l by (rule H_node)
  have dc: "0 < dc"
    unfolding dc_def using wf_data_data baseline_ok lcdm_H0_pos _ l by (rule dc_table_pos) simp
  have z: "0 < z" by (simp add: z_def nth_z_grid_data zf_pos)
  have "a_grid data ! 1 \<in> set (a_grid data)"
    using wf_data_data l by (intro nth_mem) (simp add: wf_data_def)
  with baseline_ok lcdm_H0_pos have hz: "0 < hz"
    unfolding hz_def by (intro hz_r_pos) (simp_all add: grid_ok_def list_all_iff)
  have cd: "c (model_data ?m) = c data" by (simp add: engine_def)
  have cpos: "0 < c data" by (simp add: c_data)
  let ?v = "(1 + z) * dc ^ 2 * c data / hz"
  let ?w = "(1 + z) ^ 2 * (dc / (1 + z)) ^ 2 * c data * z / hz"
  have v: "0 < ?v" using dc z hz cpos by simp
  have w: "0 < ?w" using dc z hz cpos by simp
  have "(1 + z) ^ 2 * (dc / (1 + z)) ^ 2 = dc ^ 2"
    using z by (simp add: power_divide)
  then have weq: "?w = z * dc ^ 2 * c data / hz"
    by (simp only: mult.commute[of _ z] mult.assoc)
  have "z * dc ^ 2 * c data / hz < ?v"
    using dc z hz cpos by (simp add: field_simps)
  then have "?w < ?v" by (simp only: weq)
  with w have lt: "?w powr (1 / 3) < ?v powr (1 / 3)"
    by (intro powr_less_mono2) simp_all
  have DV: "DV ?m z = Some (?v powr (1 / 3))"
    unfolding DV_def Let_def Dc Hz cd np_power_2 using v hz by simp
  have DVs: "DV_spec ?m z = Some (?w powr (1 / 3))"
    unfolding DV_spec_def DA_spec_def Dc Hz cd using w hz z
    by (simp add: np_power_2 del: np_power.simps) (simp add: power2_eq_square)
  from lt DV DVs show ?thesis
    unfolding z_def[symmetric] by (simp add: baseline_init)
qed

section \<open>The baseline Hubble rate at redshift zero\<close>

lemma g_lcdm_sq:
  assumes "0 \<le> om" "0 \<le> z"
  shows "(g_lcdm om z) ^ 2 = 1 + om * z * (3 + 3 * z + z ^ 2)"
proof -
  have "om * (1 + z) ^ 3 + (1 - om) = 1 + om * z * (3 + 3 * z + z ^ 2)"
    by (simp add: power3_eq_cube power2_eq_square algebra_simps)
  moreover have "0 \<le> 1 + om * z * (3 + 3 * z + z ^ 2)"
    using assms by (intro add_nonneg_nonneg mult_nonneg_nonneg) simp_all
  ultimately show ?thesis by (simp add: g_lcdm_def)
qed

lemma g_lcdm_gt_1:
  assumes "0 < om" "0 < z"
  shows "1 < g_lcdm om z"
proof -
  have "om * (1 + z) ^ 3 + (1 - om) = 1 + om * z * (3 + 3 * z + z ^ 2)"
    by (simp add: power3_eq_cube power2_eq_square algebra_simps)
  moreover have "0 < om * z * (3 + 3 * z + z ^ 2)"
    using assms by (intro mult_pos_pos add_pos_pos) simp_all
  ultimately have "1 < om * (1 + z) ^ 3 + (1 - om)" by simp
  then show ?thesis unfolding g_lcdm_def by simp
qed

lemma chord_slope_increasing:
  assumes om: "0 < om" "om \<le> 1" and s: "0 < s" "s < t" "s \<le> 1 / 2"
  shows "(g_lcdm om s - 1) * t < (g_lcdm om t - 1) * s"
proof -
  define A where "A = 3 + 3 * s + s ^ 2"
  define B where "B = 3 + 3 * t + t ^ 2"
  define gs where "gs = g_lcdm om s"
  define gt where "gt = g_lcdm om t"
  from s have t: "0 < t" by simp
  have gs2: "gs ^ 2 = 1 + om * s * A" unfolding gs_def A_def using om s by (intro g_lcdm_sq) simp_all
  have gt2: "gt ^ 2 = 1 + om * t * B" unfolding gt_def B_def using om t by (intro g_lcdm_sq) simp_all
  have gs1: "1 < gs" unfolding gs_def using om s by (intro g_lcdm_gt_1)
  have gt1: "1 < gt" unfolding gt_def using om t by (intro g_lcdm_gt_1)
  have A: "0 < A" "A \<le> 3 + 3 * s + s * (1 / 2)"
    unfolding A_def using s by (auto simp: power2_eq_square intro!: add_pos_pos mult_left_mono)
  have B: "0 < B" unfolding B_def using t by (intro add_pos_pos) simp_all
  have BA: "B - A = (t - s) * (3 + s + t)"
    unfolding A_def B_def by (simp add: power2_eq_square algebra_simps)
  have AB: "t * A - s * B = (t - s) * (3 - s * t)"
    unfolding A_def B_def by (simp add: power2_eq_square algebra_simps)
  have BAp: "0 < B - A" unfolding BA using s by (intro mult_pos_pos) simp_all
  \<comment> \<open>the bracket\<close>
  have "om * (3 - s * t) \<le> 3"
  proof (cases "0 \<le> 3 - s * t")
    case True
    then have "om * (3 - s * t) \<le> 1 * (3 - s * t)" using om by (intro mult_right_mono) simp_all
    also have "\<dots> \<le> 3" using s t by simp
    finally show ?thesis .
  next
    case False
    then have "om * (3 - s * t) \<le> 0" using om by (simp add: mult_le_0_iff)
    then show ?thesis by simp
  qed
  then have "A * (om * (3 - s * t)) \<le> A * 3" using A by (intro mult_left_mono) simp_all
  also have "A * 3 \<le> (3 + 3 * s + s * (1 / 2)) * 3" using A by simp
  also have "\<dots> < 4 * (3 + s + t)" using s by simp
  finally have br: "om * A * (3 - s * t) < 4 * (3 + s + t)" by (simp add: mult_ac)
  \<comment> \<open>the polynomial inequality\<close>
  have "om * A * B * (t * A - s * B) = (B * (t - s)) * (om * A * (3 - s * t))"
    unfolding AB by (simp add: mult_ac)
  also have "\<dots> < (B * (t - s)) * (4 * (3 + s + t))"
    using br B s by (intro mult_strict_left_mono mult_pos_pos) simp_all
  also have "\<dots> = 4 * B * (B - A)" unfolding BA by (simp add: mult_ac)
  finally have poly: "om * A * B * (t * A - s * B) < 4 * B * (B - A)" .
  have "(A * gt) ^ 2 = A ^ 2 * (1 + om * t * B)" by (simp add: power_mult_distrib gt2)
  also have "\<dots> < B ^ 2 * (1 + om * s * A) + 2 * B * (B - A) + (B - A) ^ 2"
    using poly by (simp add: power2_eq_square algebra_simps)
  also have "\<dots> \<le> B ^ 2 * gs ^ 2 + 2 * B * (B - A) * gs + (B - A) ^ 2"
  proof -
    have "2 * B * (B - A) * 1 \<le> 2 * B * (B - A) * gs"
      using B BAp gs1 by (intro mult_left_mono) simp_all
    then show ?thesis by (simp add: gs2)
  qed
  also have "\<dots> = (B * gs + (B - A)) ^ 2"
    by (simp add: power2_eq_square algebra_simps)
  finally have "(A * gt) ^ 2 < (B * gs + (B - A)) ^ 2" .
  moreover have "0 \<le> B * gs + (B - A)"
    using B BAp gs1 by (intro add_nonneg_nonneg mult_nonneg_nonneg) simp_all
  ultimately have "A * gt < B * gs + (B - A)" by (rule power2_less_imp_less)
  then have key: "A * (gt + 1) < B * (gs + 1)" by (simp add: algebra_simps)
  have e1: "(gs - 1) * (gs + 1) = om * s * A"
    using gs2 by (simp add: power2_eq_square algebra_simps)
  have e2: "(gt - 1) * (gt + 1) = om * t * B"
    using gt2 by (simp add: power2_eq_square algebra_simps)
  have "(gs - 1) * t * ((gs + 1) * (gt + 1)) = ((gs - 1) * (gs + 1)) * t * (gt + 1)"
    by (simp add: mult_ac)
  also have "\<dots> = (om * s * t) * (A * (gt + 1))" unfolding e1 by (simp add: mult_ac)
  also have "\<dots> < (om * s * t) * (B * (gs + 1))"
    using key om s t by (intro mult_strict_left_mono mult_pos_pos) simp_all
  also have "\<dots> = ((gt - 1) * (gt + 1)) * s * (gs + 1)" unfolding e2 by (simp add: mult_ac)
  also have "\<dots> = (gt - 1) * s * ((gs + 1) * (gt + 1))" by (simp add: mult_ac)
  finally have "(gs - 1) * t * ((gs + 1) * (gt + 1)) < (gt - 1) * s * ((gs + 1) * (gt + 1))" .
  moreover have "0 < (gs + 1) * (gt + 1)" using gs1 gt1 by (intro mult_pos_pos) simp_all
  ultimately have "(gs - 1) * t < (gt - 1) * s" by (simp only: mult_less_cancel_right_pos)
  then show ?thesis by (simp only: gs_def gt_def)
qed

lemma hz_r_baseline_z:
  "0 \<le> z \<Longrightarrow> hz_r h0 om (- 1) 0 0 (1 / (1 + z)) = h0 * g_lcdm om z"
  by (simp add: hz_r_def rad_r_baseline g_lcdm_def power_divide)

lemma secant_below_start:
  assumes om: "0 < om" "om \<le> 1" and s: "0 < s" "s < t" "s \<le> 1 / 2" and h: "0 < h0"
  shows "(h0 * g_lcdm om t - h0 * g_lcdm om s) / (t - s) * (0 - s) + h0 * g_lcdm om s < h0"
proof -
  have c: "(g_lcdm om s - 1) * t < (g_lcdm om t - 1) * s"
    using om s by (rule chord_slope_increasing)
  have ts: "0 < t - s" using s by simp
  have "((g_lcdm om s - 1) * (t - s)) < (g_lcdm om t - g_lcdm om s) * s"
    using c by (simp add: algebra_simps)
  then have "g_lcdm om s - 1 < (g_lcdm om t - g_lcdm om s) * s / (t - s)"
    using ts by (simp add: pos_less_divide_eq)
  then have "g_lcdm om s - (g_lcdm om t - g_lcdm om s) / (t - s) * s < 1"
    by simp
  then have "h0 * (g_lcdm om s - (g_lcdm om t - g_lcdm om s) / (t - s) * s) < h0 * 1"
    using h by (intro mult_strict_left_mono)
  then show ?thesis
    by (simp add: algebra_simps diff_divide_distrib)
qed

lemma lcdm_init:
  "LCDM_Vectorized_init lcdm_H0 lcdm_Om lcdm_s8 data
     = Inr (BaseModel.extend (engine lcdm_H0 lcdm_Om data (- 1) 0 0)
              (LCDM_Vectorized.fields lcdm_s8))"
  by (simp add: LCDM_init_data baseline_ok)

lemma lcdm_H_zero:
  "\<exists>h. H (engine lcdm_H0 lcdm_Om data (- 1) 0 0) 0 = Some h \<and> h < lcdm_H0"
proof -
  have z0: "z_grid data ! 0 = zf 0" and z1: "z_grid data ! 1 = zf 1"
    by (simp_all add: nth_z_grid_data)
  have a0: "a_grid data ! 0 = 1 / (1 + zf 0)" and a1: "a_grid data ! 1 = 1 / (1 + zf 1)"
    by (simp_all add: nth_a_grid_data)
  have p: "0 \<le> zf 0" "0 \<le> zf 1" using zf_pos[of 0] zf_pos[of 1] by simp_all
  have v: "0 \<le> z_grid data ! 0" unfolding z0 by (rule p)
  have om: "0 < lcdm_Om" "lcdm_Om \<le> 1" by (simp_all add: lcdm_Om_def)
  have s: "0 < zf 0" "zf 0 < zf 1" "zf 0 \<le> 1 / 2"
    using zf_pos[of 0] zf_strict[of 0 1] by (simp_all add: zf_0)
  have "(lcdm_H0 * g_lcdm lcdm_Om (zf 1) - lcdm_H0 * g_lcdm lcdm_Om (zf 0)) / (zf 1 - zf 0)
          * (0 - zf 0) + lcdm_H0 * g_lcdm lcdm_Om (zf 0) < lcdm_H0"
    using om s lcdm_H0_pos by (rule secant_below_start)
  then show ?thesis
    unfolding H_below_grid[OF wf_data_data v] z0 z1 a0 a1
      hz_r_baseline_z[OF p(1)] hz_r_baseline_z[OF p(2)]
    by blast
qed

lemma g_lcdm_mono:
  assumes "0 < om" "0 \<le> s" "s \<le> t"
  shows "g_lcdm om s \<le> g_lcdm om t"
proof -
  have "(1 + s) ^ 3 \<le> (1 + t) ^ 3" using assms by (intro power_mono) simp_all
  then have "om * (1 + s) ^ 3 \<le> om * (1 + t) ^ 3" using assms by (intro mult_left_mono) simp_all
  then show ?thesis by (simp add: g_lcdm_def)
qed

lemma g_lcdm_diff:
  assumes "0 < om" "om \<le> 1" "0 \<le> s" "0 \<le> t"
  shows "(g_lcdm om t - g_lcdm om s) * (g_lcdm om t + g_lcdm om s)
       = om * (t - s) * ((1 + t) ^ 2 + (1 + t) * (1 + s) + (1 + s) ^ 2)"
proof -
  have ps: "0 \<le> om * (1 + s) ^ 3 + (1 - om)"
    using assms by (intro add_nonneg_nonneg mult_nonneg_nonneg zero_le_power) simp_all
  have pt: "0 \<le> om * (1 + t) ^ 3 + (1 - om)"
    using assms by (intro add_nonneg_nonneg mult_nonneg_nonneg zero_le_power) simp_all
  have "(g_lcdm om t - g_lcdm om s) * (g_lcdm om t + g_lcdm om s)
      = (g_lcdm om t) ^ 2 - (g_lcdm om s) ^ 2"
    by (simp add: power2_eq_square algebra_simps)
  also have "\<dots> = (om * (1 + t) ^ 3 + (1 - om)) - (om * (1 + s) ^ 3 + (1 - om))"
    using ps pt by (simp add: g_lcdm_def)
  also have "\<dots> = om * (t - s) * ((1 + t) ^ 2 + (1 + t) * (1 + s) + (1 + s) ^ 2)"
    by (simp add: power3_eq_cube power2_eq_square algebra_simps)
  finally show ?thesis .
qed

lemma secant_slope_bounds:
  assumes om: "0 < om" "om \<le> 1" and s: "0 < s" "s < t"
    and gl: "0 < gl" "gl \<le> g_lcdm om s" and gh: "g_lcdm om t \<le> gh"
  shows "om * (3 * (1 + s) ^ 2) / (2 * gh) \<le> (g_lcdm om t - g_lcdm om s) / (t - s)"
    and "(g_lcdm om t - g_lcdm om s) / (t - s) \<le> om * (3 * (1 + t) ^ 2) / (2 * gl)"
proof -
  define Q where "Q = (1 + t) ^ 2 + (1 + t) * (1 + s) + (1 + s) ^ 2"
  define S where "S = g_lcdm om t + g_lcdm om s"
  from s have t: "0 < t" by simp
  have mono: "g_lcdm om s \<le> g_lcdm om t" using om(1) s by (intro g_lcdm_mono) simp_all
  have Slo: "2 * gl \<le> S" unfolding S_def using gl mono by simp
  have Shi: "S \<le> 2 * gh" unfolding S_def using gh mono by simp
  from gl Slo have Sp: "0 < S" by simp
  have ts: "0 < t - s" using s by simp
  have "(g_lcdm om t - g_lcdm om s) * S = om * (t - s) * Q"
    unfolding S_def Q_def using om s t by (intro g_lcdm_diff) simp_all
  then have "g_lcdm om t - g_lcdm om s = om * (t - s) * Q / S"
    using Sp by (simp add: field_simps)
  then have slope: "(g_lcdm om t - g_lcdm om s) / (t - s) = om * Q / S"
    using ts by simp
  have m1: "(1 + s) * (1 + s) \<le> (1 + t) * (1 + s)" using s by (intro mult_right_mono) simp_all
  have m2: "(1 + t) * (1 + s) \<le> (1 + t) * (1 + t)" using s by (intro mult_left_mono) simp_all
  have Qlo: "3 * (1 + s) ^ 2 \<le> Q" unfolding Q_def power2_eq_square using m1 m2 by simp
  have Qhi: "Q \<le> 3 * (1 + t) ^ 2" unfolding Q_def power2_eq_square using m1 m2 by simp
  have Qp: "0 \<le> Q" using Qlo by (rule order_trans[rotated]) simp
  have "om * (3 * (1 + s) ^ 2) / (2 * gh) \<le> om * Q / S"
  proof (rule frac_le)
    show "0 \<le> om * Q" using om Qp by simp
    show "om * (3 * (1 + s) ^ 2) \<le> om * Q" using om Qlo by (intro mult_left_mono) simp_all
    show "0 < S" by (rule Sp)
    show "S \<le> 2 * gh" by (rule Shi)
  qed
  then show "om * (3 * (1 + s) ^ 2) / (2 * gh) \<le> (g_lcdm om t - g_lcdm om s) / (t - s)"
    by (simp only: slope)
  have "om * Q / S \<le> om * (3 * (1 + t) ^ 2) / (2 * gl)"
  proof (rule frac_le)
    show "0 \<le> om * (3 * (1 + t) ^ 2)" using om by simp
    show "om * Q \<le> om * (3 * (1 + t) ^ 2)" using om Qhi by (intro mult_left_mono) simp_all
    show "0 < 2 * gl" using gl by simp
    show "2 * gl \<le> S" by (rule Slo)
  qed
  then show "(g_lcdm om t - g_lcdm om s) / (t - s) \<le> om * (3 * (1 + t) ^ 2) / (2 * gl)"
    by (simp only: slope)
qed

lemma zf_1_le: "zf 1 \<le> 101 / 100000"
proof -
  have "zf 1 = zf 0 * grid_ratio" using zf_Suc[of 0] by simp
  also have "\<dots> \<le> zf 0 * (101 / 100)"
    using grid_ratio_le zf_pos[of 0] by (intro mult_left_mono) simp_all
  finally show ?thesis by (simp add: zf_0)
qed

lemma lcdm_secant_value:
  "6779997 / 100000
     < (lcdm_H0 * g_lcdm lcdm_Om (zf 1) - lcdm_H0 * g_lcdm lcdm_Om (zf 0)) / (zf 1 - zf 0)
          * (0 - zf 0) + lcdm_H0 * g_lcdm lcdm_Om (zf 0)"
  "(lcdm_H0 * g_lcdm lcdm_Om (zf 1) - lcdm_H0 * g_lcdm lcdm_Om (zf 0)) / (zf 1 - zf 0)
          * (0 - zf 0) + lcdm_H0 * g_lcdm lcdm_Om (zf 0)
     < 6779998 / 100000"
proof -
  define g0 where "g0 = g_lcdm lcdm_Om (zf 0)"
  define g1 where "g1 = g_lcdm lcdm_Om (zf 1)"
  define sl where "sl = (g1 - g0) / (zf 1 - zf 0)"
  have om: "0 < lcdm_Om" "lcdm_Om \<le> 1" by (simp_all add: lcdm_Om_def)
  have s: "0 < zf 0" "zf 0 < zf 1" using zf_pos[of 0] zf_strict[of 0 1] by simp_all
  have g0_eq: "g0 = sqrt (200189189063 / 200000000000)"
    by (simp add: g0_def g_lcdm_def zf_0 lcdm_Om_def power3_eq_cube)
  have g0_lo: "100047286 / 100000000 \<le> g0"
    unfolding g0_eq by (rule real_le_rsqrt) (simp add: power2_eq_square)
  have g0_hi: "g0 \<le> 1000472861 / 1000000000"
    unfolding g0_eq by (rule real_le_lsqrt) (simp_all add: power2_eq_square)
  have "g1 \<le> g_lcdm lcdm_Om (101 / 100000)"
    unfolding g1_def using om(1) zf_pos[of 1] zf_1_le by (intro g_lcdm_mono) simp_all
  also have "g_lcdm lcdm_Om (101 / 100000) = sqrt (200191082863808963 / 200000000000000000)"
    by (simp add: g_lcdm_def lcdm_Om_def power3_eq_cube)
  also have "\<dots> \<le> 1000477594 / 1000000000"
    by (rule real_le_lsqrt) (simp_all add: power2_eq_square)
  finally have g1_hi: "g1 \<le> 1000477594 / 1000000000" .
  have lo: "lcdm_Om * (3 * (1 + zf 0) ^ 2) / (2 * (1000477594 / 1000000000)) \<le> sl"
    unfolding sl_def g1_def g0_def
    using om s _ g0_lo[unfolded g0_def] g1_hi[unfolded g1_def]
    by (rule secant_slope_bounds(1)) simp
  have "sl \<le> lcdm_Om * (3 * (1 + zf 1) ^ 2) / (2 * (100047286 / 100000000))"
    unfolding sl_def g1_def g0_def
    using om s _ g0_lo[unfolded g0_def] g1_hi[unfolded g1_def]
    by (rule secant_slope_bounds(2)) simp
  also have "\<dots> \<le> lcdm_Om * (3 * (1 + 101 / 100000) ^ 2) / (2 * (100047286 / 100000000))"
  proof -
    have "(1 + zf 1) ^ 2 \<le> (1 + 101 / 100000) ^ 2"
      using zf_1_le zf_pos[of 1] by (intro power_mono) simp_all
    then show ?thesis using om by (simp add: divide_right_mono mult_left_mono)
  qed
  finally have hi: "sl \<le> lcdm_Om * (3 * (1 + 101 / 100000) ^ 2) / (2 * (100047286 / 100000000))" .
  have v: "(lcdm_H0 * g_lcdm lcdm_Om (zf 1) - lcdm_H0 * g_lcdm lcdm_Om (zf 0)) / (zf 1 - zf 0)
          * (0 - zf 0) + lcdm_H0 * g_lcdm lcdm_Om (zf 0)
      = lcdm_H0 * (g0 - sl * (1 / 1000))"
    unfolding sl_def g0_def g1_def by (simp add: zf_0 algebra_simps diff_divide_distrib)
  have "6779997 / 100000 < lcdm_H0 * (100047286 / 100000000
      - lcdm_Om * (3 * (1 + 101 / 100000) ^ 2) / (2 * (100047286 / 100000000)) * (1 / 1000))"
    by (simp add: lcdm_H0_def lcdm_Om_def power2_eq_square)
  also have "\<dots> \<le> lcdm_H0 * (g0 - sl * (1 / 1000))"
    using g0_lo hi lcdm_H0_pos by (intro mult_left_mono diff_mono mult_right_mono) simp_all
  finally show "6779997 / 100000
     < (lcdm_H0 * g_lcdm lcdm_Om (zf 1) - lcdm_H0 * g_lcdm lcdm_Om (zf 0)) / (zf 1 - zf 0)
          * (0 - zf 0) + lcdm_H0 * g_lcdm lcdm_Om (zf 0)"
    by (simp only: v)
  have "lcdm_H0 * (g0 - sl * (1 / 1000))
      \<le> lcdm_H0 * (1000472861 / 1000000000
         - lcdm_Om * (3 * (1 + zf 0) ^ 2) / (2 * (1000477594 / 1000000000)) * (1 / 1000))"
    using g0_hi lo lcdm_H0_pos by (intro mult_left_mono diff_mono mult_right_mono) simp_all
  also have "\<dots> < 6779998 / 100000"
    by (simp add: zf_0 lcdm_H0_def lcdm_Om_def power2_eq_square)
  finally show "(lcdm_H0 * g_lcdm lcdm_Om (zf 1) - lcdm_H0 * g_lcdm lcdm_Om (zf 0)) / (zf 1 - zf 0)
          * (0 - zf 0) + lcdm_H0 * g_lcdm lcdm_Om (zf 0)
     < 6779998 / 100000"
    by (simp only: v)
qed

text \<open>
  Claim C6, as amended.  The grid starts at \<open>z = 1/1000\<close>, where the best-fit baseline
  model returns the grid value \<open>H0 * sqrt (Om * 1.001^3 + 1 - Om)\<close>.  Its Hubble rate at
  redshift zero is the linear extrapolation of the first grid segment, the line through
  the values at the first two grid points continued down to \<open>z = 0\<close>; this number lies
  between 67.79997 and 67.79998, below \<open>H0 = 67.8\<close>.
\<close>

theorem H_at_zero_is_extrapolated:
  "LCDM_Vectorized_init lcdm_H0 lcdm_Om lcdm_s8 data
     = Inr (BaseModel.extend (engine lcdm_H0 lcdm_Om data (- 1) 0 0)
              (LCDM_Vectorized.fields lcdm_s8))
   \<and> z_grid data ! 0 = 1 / 1000
   \<and> H (BaseModel.extend (engine lcdm_H0 lcdm_Om data (- 1) 0 0)
                 (LCDM_Vectorized.fields lcdm_s8)) (1 / 1000)
       = Some (lcdm_H0 * sqrt (lcdm_Om * (1 + 1 / 1000) ^ 3 + (1 - lcdm_Om)))
   \<and> (\<exists>y0 y1.
         H (BaseModel.extend (engine lcdm_H0 lcdm_Om data (- 1) 0 0)
                 (LCDM_Vectorized.fields lcdm_s8)) (z_grid data ! 0) = Some y0
       \<and> H (BaseModel.extend (engine lcdm_H0 lcdm_Om data (- 1) 0 0)
                 (LCDM_Vectorized.fields lcdm_s8)) (z_grid data ! 1) = Some y1
       \<and> H (BaseModel.extend (engine lcdm_H0 lcdm_Om data (- 1) 0 0)
                 (LCDM_Vectorized.fields lcdm_s8)) 0
           = Some ((y1 - y0) / (z_grid data ! 1 - z_grid data ! 0) * (0 - z_grid data ! 0) + y0)
       \<and> 6779997 / 100000
            < (y1 - y0) / (z_grid data ! 1 - z_grid data ! 0) * (0 - z_grid data ! 0) + y0
       \<and> (y1 - y0) / (z_grid data ! 1 - z_grid data ! 0) * (0 - z_grid data ! 0) + y0
            < 6779998 / 100000)"
proof -
  let ?e = "engine lcdm_H0 lcdm_Om data (- 1) 0 0"
  let ?y0 = "lcdm_H0 * g_lcdm lcdm_Om (zf 0)"
  let ?y1 = "lcdm_H0 * g_lcdm lcdm_Om (zf 1)"
  have z0: "z_grid data ! 0 = zf 0" and z1: "z_grid data ! 1 = zf 1"
    by (simp_all add: nth_z_grid_data)
  have a0: "a_grid data ! 0 = 1 / (1 + zf 0)" and a1: "a_grid data ! 1 = 1 / (1 + zf 1)"
    by (simp_all add: nth_a_grid_data)
  have p: "0 \<le> zf 0" "0 \<le> zf 1" using zf_pos[of 0] zf_pos[of 1] by simp_all
  have v: "0 \<le> z_grid data ! 0" unfolding z0 by (rule p)
  have l: "0 < length (z_grid data)" "1 < length (z_grid data)"
    by (simp_all add: length_z_grid_data)
  have n0: "H ?e (zf 0) = Some ?y0"
    using H_node[OF wf_data_data l(1), of lcdm_H0 lcdm_Om "- 1" 0 0]
    unfolding z0 a0 hz_r_baseline_z[OF p(1)] .
  have n1: "H ?e (zf 1) = Some ?y1"
    using H_node[OF wf_data_data l(2), of lcdm_H0 lcdm_Om "- 1" 0 0]
    unfolding z1 a1 hz_r_baseline_z[OF p(2)] .
  have e: "H ?e 0 = Some ((?y1 - ?y0) / (zf 1 - zf 0) * (0 - zf 0) + ?y0)"
    unfolding H_below_grid[OF wf_data_data v] z0 z1 a0 a1
      hz_r_baseline_z[OF p(1)] hz_r_baseline_z[OF p(2)] by (rule refl)
  have first: "H ?e (1 / 1000) = Some (lcdm_H0 * sqrt (lcdm_Om * (1 + 1 / 1000) ^ 3 + (1 - lcdm_Om)))"
    using n0 unfolding zf_0 g_lcdm_def .
  have ex: "\<exists>y0 y1. H ?e (zf 0) = Some y0 \<and> H ?e (zf 1) = Some y1
       \<and> H ?e 0 = Some ((y1 - y0) / (zf 1 - zf 0) * (0 - zf 0) + y0)
       \<and> 6779997 / 100000 < (y1 - y0) / (zf 1 - zf 0) * (0 - zf 0) + y0
       \<and> (y1 - y0) / (zf 1 - zf 0) * (0 - zf 0) + y0 < 6779998 / 100000"
    using n0 n1 e lcdm_secant_value by blast
  from lcdm_init first ex show ?thesis
    unfolding z0 z1 by (simp only: extend_fields zf_0) 
qed

text \<open>Claim C6 as stated fails: \<open>H(0)\<close> is not \<open>67.8\<close>.\<close>

theorem H_at_zero_counterexample:
  "LCDM_Vectorized_init lcdm_H0 lcdm_Om lcdm_s8 data
     = Inr (BaseModel.extend (engine lcdm_H0 lcdm_Om data (- 1) 0 0)
              (LCDM_Vectorized.fields lcdm_s8))
   \<and> lcdm_H0 = 678 / 10 \<and> lcdm_Om = 315 / 1000
   \<and> H (BaseModel.extend (engine lcdm_H0 lcdm_Om data (- 1) 0 0)
                 (LCDM_Vectorized.fields lcdm_s8)) 0 \<noteq> Some (678 / 10)"
proof -
  from lcdm_H_zero obtain h where
    "H (engine lcdm_H0 lcdm_Om data (- 1) 0 0) 0 = Some h" "h < lcdm_H0" by blast
  then have "H (engine lcdm_H0 lcdm_Om data (- 1) 0 0) 0 \<noteq> Some (678 / 10)"
    by (simp add: lcdm_H0_def)
  with lcdm_init show ?thesis
    by (simp only: extend_fields) (simp add: lcdm_H0_def lcdm_Om_def)
qed

section \<open>Monotonicity of the comoving distance\<close>

subsection \<open>A cubic Hermite piece with bounded end slopes is monotone\<close>

lemma hermite_slope_nonneg:
  fixes m d0 d1 t :: real
  assumes m: "0 \<le> m" and d0: "0 \<le> d0" "d0 \<le> 3 * m" and d1: "0 \<le> d1" "d1 \<le> 3 * m"
    and t: "0 \<le> t" "t \<le> 1"
  shows "0 \<le> d0 * ((1 - t) * (1 - 3 * t)) + d1 * (t * (3 * t - 2)) + 6 * m * (t * (1 - t))"
proof -
  consider "t \<le> 1 / 3" | "1 / 3 \<le> t" "t \<le> 2 / 3" | "2 / 3 \<le> t" by linarith
  then show ?thesis
  proof cases
    case 1
    with t have "0 \<le> (1 - t) * (1 - 3 * t)" by (intro mult_nonneg_nonneg) simp_all
    with d0(1) have a: "0 \<le> d0 * ((1 - t) * (1 - 3 * t))" by (rule mult_nonneg_nonneg)
    from 1 t have "t * (3 * t - 2) \<le> 0" by (intro mult_nonneg_nonpos) simp_all
    with d1 have b: "(3 * m) * (t * (3 * t - 2)) \<le> d1 * (t * (3 * t - 2))"
      by (intro mult_right_mono_neg) simp_all
    have "0 \<le> 3 * m * (t * t)" using m by (simp add: zero_le_mult_iff)
    also have "3 * m * (t * t) = (3 * m) * (t * (3 * t - 2)) + 6 * m * (t * (1 - t))"
      by (simp add: algebra_simps)
    finally show ?thesis using a b by linarith
  next
    case 2
    with t have "(1 - t) * (1 - 3 * t) \<le> 0" by (intro mult_nonneg_nonpos) simp_all
    with d0 have a: "(3 * m) * ((1 - t) * (1 - 3 * t)) \<le> d0 * ((1 - t) * (1 - 3 * t))"
      by (intro mult_right_mono_neg) simp_all
    from 2 t have "t * (3 * t - 2) \<le> 0" by (intro mult_nonneg_nonpos) simp_all
    with d1 have b: "(3 * m) * (t * (3 * t - 2)) \<le> d1 * (t * (3 * t - 2))"
      by (intro mult_right_mono_neg) simp_all
    have "0 \<le> 3 * m * ((2 * t - 1) * (2 * t - 1))" using m by (simp add: zero_le_mult_iff)
    also have "3 * m * ((2 * t - 1) * (2 * t - 1))
        = (3 * m) * ((1 - t) * (1 - 3 * t)) + (3 * m) * (t * (3 * t - 2)) + 6 * m * (t * (1 - t))"
      by (simp add: algebra_simps)
    finally show ?thesis using a b by linarith
  next
    case 3
    with t have "(1 - t) * (1 - 3 * t) \<le> 0" by (intro mult_nonneg_nonpos) simp_all
    with d0 have a: "(3 * m) * ((1 - t) * (1 - 3 * t)) \<le> d0 * ((1 - t) * (1 - 3 * t))"
      by (intro mult_right_mono_neg) simp_all
    from 3 t have "0 \<le> t * (3 * t - 2)" by (intro mult_nonneg_nonneg) simp_all
    with d1(1) have b: "0 \<le> d1 * (t * (3 * t - 2))" by (rule mult_nonneg_nonneg)
    have "0 \<le> 3 * m * ((1 - t) * (1 - t))" using m by (simp add: zero_le_mult_iff)
    also have "3 * m * ((1 - t) * (1 - t))
        = (3 * m) * ((1 - t) * (1 - 3 * t)) + 6 * m * (t * (1 - t))"
      by (simp add: algebra_simps)
    finally show ?thesis using a b by linarith
  qed
qed

lemma hermite_piece_deriv:
  assumes h: "0 < h"
  shows "((\<lambda>s. evaluate_piece (hermite_piece h y0 y1 d0 d1) s) has_real_derivative
          (d0 * ((1 - s / h) * (1 - 3 * (s / h))) + d1 * ((s / h) * (3 * (s / h) - 2))
           + 6 * ((y1 - y0) / h) * ((s / h) * (1 - s / h)))) (at s)"
proof -
  define m where "m = (y1 - y0) / h"
  define c0 where "c0 = (d0 + d1 - 2 * m) / h / h"
  define c1 where "c1 = (m - d0) / h - (d0 + d1 - 2 * m) / h"
  have e: "evaluate_piece (hermite_piece h y0 y1 d0 d1) = (\<lambda>s. c0 * s ^ 3 + c1 * s ^ 2 + d0 * s + y0)"
    by (simp add: fun_eq_iff evaluate_piece_def hermite_piece_def Let_def c0_def c1_def m_def)
  have "((\<lambda>s. c0 * s ^ 3 + c1 * s ^ 2 + d0 * s + y0) has_real_derivative
          (c0 * (3 * s ^ 2) + c1 * (2 * s) + d0)) (at s)"
    by (auto intro!: derivative_eq_intros)
  moreover have "c0 * (3 * s ^ 2) + c1 * (2 * s) + d0
      = d0 * ((1 - s / h) * (1 - 3 * (s / h))) + d1 * ((s / h) * (3 * (s / h) - 2))
           + 6 * m * ((s / h) * (1 - s / h))"
    using h unfolding c0_def c1_def
    by (simp add: power2_eq_square field_simps) 
  ultimately show ?thesis unfolding e m_def by simp
qed

lemma hermite_piece_mono:
  assumes h: "0 < h" and y: "y0 \<le> y1"
    and d0: "0 \<le> d0" "d0 \<le> 3 * ((y1 - y0) / h)" and d1: "0 \<le> d1" "d1 \<le> 3 * ((y1 - y0) / h)"
    and s: "0 \<le> s" "s \<le> s'" "s' \<le> h"
  shows "evaluate_piece (hermite_piece h y0 y1 d0 d1) s
           \<le> evaluate_piece (hermite_piece h y0 y1 d0 d1) s'"
proof (rule DERIV_nonneg_imp_nondecreasing[OF s(2)])
  fix u assume u: "s \<le> u" "u \<le> s'"
  with s h have t: "0 \<le> u / h" "u / h \<le> 1" by simp_all
  from h y have m: "0 \<le> (y1 - y0) / h" by simp
  have "0 \<le> d0 * ((1 - u / h) * (1 - 3 * (u / h))) + d1 * ((u / h) * (3 * (u / h) - 2))
           + 6 * ((y1 - y0) / h) * ((u / h) * (1 - u / h))"
    using m d0 d1 t by (rule hermite_slope_nonneg)
  with hermite_piece_deriv[OF h, of y0 y1 d0 d1 u]
  show "\<exists>y. ((\<lambda>a. evaluate_piece (hermite_piece h y0 y1 d0 d1) a) has_real_derivative y) (at u) \<and> 0 \<le> y"
    by blast
qed

subsection \<open>The derivative estimates stay within the monotonicity region\<close>

lemma whmean_deriv_bounds:
  assumes h: "0 < hp" "0 < hk" and m: "0 \<le> mp" "0 \<le> mk"
  shows "0 \<le> whmean_deriv hp hk mp mk \<and> whmean_deriv hp hk mp mk \<le> 3 * mp
       \<and> whmean_deriv hp hk mp mk \<le> 3 * mk"
proof (cases "mp = 0 \<or> mk = 0")
  case True
  with m show ?thesis by (auto simp: whmean_deriv_def)
next
  case False
  with m have mp: "0 < mp" and mk: "0 < mk" by simp_all
  define w1 where "w1 = 2 * hk + hp"
  define w2 where "w2 = hk + 2 * hp"
  define S where "S = w1 / mp + w2 / mk"
  have w: "0 < w1" "0 < w2" "w2 \<le> 2 * w1" "w1 \<le> 2 * w2"
    using h by (simp_all add: w1_def w2_def)
  have S: "0 < S" unfolding S_def using w mp mk by (intro add_pos_pos divide_pos_pos)
  have d: "whmean_deriv hp hk mp mk = (w1 + w2) / S"
    using mp mk S by (simp add: whmean_deriv_def Let_def w1_def w2_def S_def sgn_if)
  have "w1 + w2 \<le> 3 * w1" using w by simp
  also have "3 * w1 = 3 * mp * (w1 / mp)" using mp by simp
  also have "\<dots> \<le> 3 * mp * S"
    unfolding S_def using mp mk w by (intro mult_left_mono) simp_all
  finally have a: "(w1 + w2) / S \<le> 3 * mp" using S by (simp add: pos_divide_le_eq)
  have "w1 + w2 \<le> 3 * w2" using w by simp
  also have "3 * w2 = 3 * mk * (w2 / mk)" using mk by simp
  also have "\<dots> \<le> 3 * mk * S"
    unfolding S_def using mp mk w by (intro mult_left_mono) simp_all
  finally have b: "(w1 + w2) / S \<le> 3 * mk" using S by (simp add: pos_divide_le_eq)
  have "0 \<le> (w1 + w2) / S" using w S by simp
  with a b show ?thesis unfolding d by simp
qed

lemma edge_case_bounds:
  assumes h: "0 < h0" "0 < h1" and m: "0 \<le> m0" "0 \<le> m1"
  shows "0 \<le> edge_case h0 h1 m0 m1 \<and> edge_case h0 h1 m0 m1 \<le> 3 * m0"
proof -
  define d where "d = ((2 * h0 + h1) * m0 - h0 * m1) / (h0 + h1)"
  have hh: "0 < h0 + h1" using h by simp
  have "(2 * h0 + h1) * m0 - h0 * m1 \<le> (2 * h0 + h1) * m0"
    using h m by simp
  also have "\<dots> \<le> (2 * (h0 + h1)) * m0"
    using h m by (intro mult_right_mono) simp_all
  finally have "d \<le> 2 * m0"
    unfolding d_def using hh by (simp add: pos_divide_le_eq mult_ac)
  with m have up: "d \<le> 3 * m0" by simp
  have e: "edge_case h0 h1 m0 m1 =
      (if sgn d \<noteq> sgn m0 then 0
       else if sgn m0 \<noteq> sgn m1 \<and> \<bar>d\<bar> > 3 * \<bar>m0\<bar> then 3 * m0 else d)"
    by (simp add: edge_case_def d_def Let_def)
  show ?thesis
  proof (cases "sgn d = sgn m0")
    case False
    with m show ?thesis unfolding e by simp
  next
    case True
    with m have "0 \<le> d" by (auto simp: sgn_if split: if_splits)
    with True up m show ?thesis unfolding e by auto
  qed
qed

lemma nth_slopes:
  assumes "length y = length x" "Suc i < length x"
  shows "map2 (\<lambda>dy h. dy / h) (diff y) (diff x) ! i = (y ! Suc i - y ! i) / (x ! Suc i - x ! i)"
  using assms by (simp add: nth_diff)

lemma find_derivatives_bounds:
  assumes sx: "sorted_wrt (<) x" and sy: "sorted y"
    and l: "length y = length x" "2 \<le> length x" and i: "Suc i < length x"
  shows "0 \<le> find_derivatives x y ! i
       \<and> find_derivatives x y ! i \<le> 3 * ((y ! Suc i - y ! i) / (x ! Suc i - x ! i))
       \<and> 0 \<le> find_derivatives x y ! Suc i
       \<and> find_derivatives x y ! Suc i \<le> 3 * ((y ! Suc i - y ! i) / (x ! Suc i - x ! i))"
proof -
  define hk where "hk = diff x"
  define mk where "mk = map2 (\<lambda>dy h. dy / h) (diff y) hk"
  define n where "n = length x"
  have lh: "length hk = n - 1" and lm: "length mk = n - 1"
    using l by (simp_all add: hk_def mk_def n_def)
  have hk: "hk ! j = x ! Suc j - x ! j" "0 < hk ! j" if "Suc j < n" for j
    using that sx by (simp_all add: hk_def n_def nth_diff sorted_wrt_iff_nth_less)
  have mk: "mk ! j = (y ! Suc j - y ! j) / (x ! Suc j - x ! j)" "0 \<le> mk ! j" if "Suc j < n" for j
  proof -
    show e: "mk ! j = (y ! Suc j - y ! j) / (x ! Suc j - x ! j)"
      unfolding mk_def hk_def using l that by (intro nth_slopes) (simp_all add: n_def)
    from that l sy have "y ! j \<le> y ! Suc j"
      by (intro sorted_nth_mono) (simp_all add: n_def)
    moreover from hk[OF that] have "0 < x ! Suc j - x ! j" by simp
    ultimately show "0 \<le> mk ! j" unfolding e by simp
  qed
  from i have i': "Suc i < n" by (simp add: n_def)
  have goal: "0 \<le> find_derivatives x y ! i \<and> find_derivatives x y ! i \<le> 3 * mk ! i
       \<and> 0 \<le> find_derivatives x y ! Suc i \<and> find_derivatives x y ! Suc i \<le> 3 * mk ! i"
  proof (cases "n = 2")
    case True
    with i' have i0: "i = 0" by simp
    from True l have "find_derivatives x y = [mk ! 0, mk ! 0]"
      by (simp add: find_derivatives_def Let_def hk_def mk_def n_def)
    with mk(2)[OF i'] show ?thesis unfolding i0 by simp
  next
    case False
    with l i' have n3: "3 \<le> n" by (simp add: n_def)
    define e0 where "e0 = edge_case (hk ! 0) (hk ! 1) (mk ! 0) (mk ! 1)"
    define eL where "eL = edge_case (rev hk ! 0) (rev hk ! 1) (rev mk ! 0) (rev mk ! 1)"
    define ds where "ds = interior_derivatives hk mk"
    from False l have fd: "find_derivatives x y = e0 # ds @ [eL]"
      by (simp add: find_derivatives_def Let_def hk_def mk_def n_def e0_def eL_def ds_def)
    have lds: "length ds = n - 2"
      unfolding ds_def using lh lm by (simp add: length_interior_derivatives)
    have ds: "ds ! j = whmean_deriv (hk ! j) (hk ! Suc j) (mk ! j) (mk ! Suc j)" if "Suc (Suc j) < n" for j
      unfolding ds_def using lh lm that by (intro nth_interior_derivatives) simp_all
    have dsb: "0 \<le> ds ! j \<and> ds ! j \<le> 3 * mk ! j \<and> ds ! j \<le> 3 * mk ! Suc j"
      if "Suc (Suc j) < n" for j
      unfolding ds[OF that] using that
      by (intro whmean_deriv_bounds hk mk) simp_all
    have e0b: "0 \<le> e0 \<and> e0 \<le> 3 * mk ! 0"
      unfolding e0_def using n3 by (intro edge_case_bounds hk mk) simp_all
    have r: "rev hk ! 0 = hk ! (n - 2)" "rev hk ! 1 = hk ! (n - 3)"
      "rev mk ! 0 = mk ! (n - 2)" "rev mk ! 1 = mk ! (n - 3)"
      using n3 lh lm by (simp_all add: rev_nth numeral_2_eq_2 numeral_3_eq_3 Suc_diff_Suc)
    have eLb: "0 \<le> eL \<and> eL \<le> 3 * mk ! (n - 2)"
      unfolding eL_def r using n3 by (intro edge_case_bounds hk mk) simp_all
    have first: "0 \<le> find_derivatives x y ! i \<and> find_derivatives x y ! i \<le> 3 * mk ! i"
    proof (cases i)
      case 0
      with e0b show ?thesis unfolding fd by simp
    next
      case (Suc j)
      with i' have j: "Suc (Suc j) < n" by simp
      then have "j < n - 2" by arith
      with lds have "find_derivatives x y ! i = ds ! j"
        unfolding fd Suc by (simp add: nth_append)
      with dsb[OF j] show ?thesis unfolding Suc by simp
    qed
    have second: "0 \<le> find_derivatives x y ! Suc i \<and> find_derivatives x y ! Suc i \<le> 3 * mk ! i"
    proof (cases "Suc (Suc i) < n")
      case True
      then have "i < n - 2" by arith
      with lds have "find_derivatives x y ! Suc i = ds ! i"
        unfolding fd by (simp add: nth_append)
      with dsb[OF True] show ?thesis by simp
    next
      case False
      with i' have in2: "i = n - 2" by arith
      with lds have "find_derivatives x y ! Suc i = eL"
        unfolding fd by (simp add: nth_append)
      with eLb show ?thesis unfolding in2 by simp
    qed
    from first second show ?thesis by simp
  qed
  then show ?thesis unfolding mk(1)[OF i'] .
qed

subsection \<open>The interpolant is monotone between the first and the last breakpoint\<close>

lemma hermite_piece_ends:
  "evaluate_piece (hermite_piece h y0 y1 d0 d1) 0 = y0"
  "h \<noteq> 0 \<Longrightarrow> evaluate_piece (hermite_piece h y0 y1 d0 d1) h = y1"
  unfolding hermite_piece_def by (rule hermite_piece_start, rule hermite_piece_end)

lemma nth_hermite_piece:
  "length y = length x \<Longrightarrow> 2 \<le> length x \<Longrightarrow> Suc i < length x \<Longrightarrow>
     hermite_coefficients x y (find_derivatives x y) ! i =
       hermite_piece (x ! Suc i - x ! i) (y ! i) (y ! Suc i)
         (find_derivatives x y ! i) (find_derivatives x y ! Suc i)"
  by (simp add: nth_hermite_coefficients length_find_derivatives hermite_piece_def)

lemma find_interval_bracket:
  assumes l: "2 \<le> length x" and v: "x ! 0 \<le> v" "v \<le> x ! (length x - 1)"
  shows "x ! find_interval x v \<le> v \<and> v \<le> x ! Suc (find_interval x v)"
proof -
  define ys where "ys = butlast (tl x)"
  define k where "k = length (takeWhile (\<lambda>b. b \<le> v) ys)"
  have fi: "find_interval x v = k" by (simp add: find_interval_def k_def ys_def)
  have ly: "length ys = length x - 2" by (simp add: ys_def)
  have ny: "ys ! j = x ! Suc j" if "j < length ys" for j
    using that by (simp add: ys_def nth_butlast nth_tl)
  have kl: "k \<le> length ys" unfolding k_def by (rule length_takeWhile_le)
  have lo: "x ! k \<le> v"
  proof (cases k)
    case 0
    with v show ?thesis by simp
  next
    case (Suc j)
    then have j: "j < length (takeWhile (\<lambda>b. b \<le> v) ys)" by (simp add: k_def)
    then have "takeWhile (\<lambda>b. b \<le> v) ys ! j \<in> set (takeWhile (\<lambda>b. b \<le> v) ys)"
      by (rule nth_mem)
    then have "takeWhile (\<lambda>b. b \<le> v) ys ! j \<le> v" by (auto dest: set_takeWhileD)
    moreover have "takeWhile (\<lambda>b. b \<le> v) ys ! j = ys ! j" using j by (rule takeWhile_nth)
    moreover from j kl have "j < length ys" by (simp add: k_def)
    ultimately show ?thesis unfolding Suc by (simp add: ny)
  qed
  have hi: "v \<le> x ! Suc k"
  proof (cases "k < length ys")
    case True
    then have "\<not> ys ! k \<le> v" unfolding k_def by (rule nth_length_takeWhile)
    with True show ?thesis by (simp add: ny)
  next
    case False
    with kl ly l have "Suc k = length x - 1" by simp
    with v show ?thesis by simp
  qed
  from lo hi show ?thesis unfolding fi by simp
qed

lemma pchip_mono:
  assumes sx: "sorted_wrt (<) x" and sy: "sorted y"
    and l: "length y = length x" "2 \<le> length x"
    and v: "x ! 0 \<le> v" "v \<le> v'" "v' \<le> x ! (length x - 1)"
  shows "\<exists>p p'. ppoly_call (pchip x y) v = Some p \<and> ppoly_call (pchip x y) v' = Some p'
           \<and> p \<le> p'"
proof -
  define d where "d = find_derivatives x y"
  define P where "P i = evaluate_piece
      (hermite_piece (x ! Suc i - x ! i) (y ! i) (y ! Suc i) (d ! i) (d ! Suc i))" for i
  define i where "i = find_interval x v"
  define j where "j = find_interval x v'"
  have il: "Suc i < length x" and jl: "Suc j < length x"
    unfolding i_def j_def using l(2) by (simp_all add: find_interval_less)
  have bi: "x ! i \<le> v" "v \<le> x ! Suc i"
    unfolding i_def using l(2) v by (simp_all add: find_interval_bracket)
  have bj: "x ! j \<le> v'" "v' \<le> x ! Suc j"
    unfolding j_def using l(2) v by (simp_all add: find_interval_bracket)
  have call: "ppoly_call (pchip x y) v = Some (P i (v - x ! i))"
    "ppoly_call (pchip x y) v' = Some (P j (v' - x ! j))"
    unfolding ppoly_call_pchip P_def d_def i_def[symmetric] j_def[symmetric]
    using l il jl by (simp_all add: nth_hermite_piece)
  have mono: "P k s \<le> P k s'"
    if k: "Suc k < length x" and s: "0 \<le> s" "s \<le> s'" "s' \<le> x ! Suc k - x ! k" for k s s'
  proof -
    from sx k have h: "0 < x ! Suc k - x ! k" by (simp add: sorted_wrt_iff_nth_less)
    from sy k l have yy: "y ! k \<le> y ! Suc k" by (intro sorted_nth_mono) simp_all
    have b: "0 \<le> d ! k \<and> d ! k \<le> 3 * ((y ! Suc k - y ! k) / (x ! Suc k - x ! k))
       \<and> 0 \<le> d ! Suc k \<and> d ! Suc k \<le> 3 * ((y ! Suc k - y ! k) / (x ! Suc k - x ! k))"
      unfolding d_def using sx sy l k by (rule find_derivatives_bounds)
    show ?thesis unfolding P_def
      using h yy b s by (intro hermite_piece_mono) simp_all
  qed
  have ends: "P k 0 = y ! k" "P k (x ! Suc k - x ! k) = y ! Suc k" if k: "Suc k < length x" for k
  proof -
    from sx k have "x ! k < x ! Suc k" by (simp add: sorted_wrt_iff_nth_less)
    then have h: "x ! Suc k - x ! k \<noteq> 0" by simp
    show "P k 0 = y ! k" unfolding P_def by (rule hermite_piece_ends)
    show "P k (x ! Suc k - x ! k) = y ! Suc k" unfolding P_def using h by (rule hermite_piece_ends)
  qed
  have "P i (v - x ! i) \<le> P j (v' - x ! j)"
  proof -
    consider "i = j" | "i < j" | "j < i" by linarith
    then show ?thesis
    proof cases
      case 1
      show ?thesis unfolding 1[symmetric]
        using il bi bj v 1 by (intro mono) simp_all
    next
      case 2
      have "P i (v - x ! i) \<le> P i (x ! Suc i - x ! i)"
        using il bi by (intro mono) simp_all
      also have "\<dots> = y ! Suc i" using il by (rule ends)
      also have "\<dots> \<le> y ! j" using sy 2 jl l by (intro sorted_nth_mono) simp_all
      also have "\<dots> = P j 0" using jl by (simp add: ends)
      also have "\<dots> \<le> P j (v' - x ! j)" using jl bj by (intro mono) simp_all
      finally show ?thesis .
    next
      case 3
      then have "x ! Suc j \<le> x ! i"
        using sx il by (cases "Suc j = i") (auto simp: sorted_wrt_iff_nth_less less_imp_le)
      with bi bj v have "v = v'" by simp
      then have "i = j" by (simp add: i_def j_def)
      with 3 show ?thesis by simp
    qed
  qed
  with call show ?thesis by simp
qed

subsection \<open>The first piece, extended below the grid\<close>

lemma edge_case_ge:
  assumes h: "0 < h0" "0 < h1" and m: "0 < m1" "m1 \<le> m0"
  shows "m0 \<le> edge_case h0 h1 m0 m1"
proof -
  define d where "d = ((2 * h0 + h1) * m0 - h0 * m1) / (h0 + h1)"
  have hh: "0 < h0 + h1" using h by simp
  have "h0 * m1 \<le> h0 * m0" using h m by (intro mult_left_mono) simp_all
  then have "(h0 + h1) * m0 \<le> (2 * h0 + h1) * m0 - h0 * m1" by (simp add: algebra_simps)
  then have d: "m0 \<le> d" unfolding d_def using hh by (simp add: pos_le_divide_eq mult.commute)
  with m have "0 < d" "0 < m0" by simp_all
  with m have "edge_case h0 h1 m0 m1 = d"
    by (simp add: edge_case_def d_def[symmetric] Let_def sgn_if)
  with d show ?thesis by simp
qed

lemma whmean_deriv_between:
  assumes h: "0 < h0" "0 < h1" and m: "0 < m1" "m1 \<le> m0"
  shows "m1 \<le> whmean_deriv h0 h1 m0 m1 \<and> whmean_deriv h0 h1 m0 m1 \<le> m0"
proof -
  from m have m0: "0 < m0" by simp
  define w1 where "w1 = 2 * h1 + h0"
  define w2 where "w2 = h1 + 2 * h0"
  define S where "S = w1 / m0 + w2 / m1"
  have w: "0 < w1" "0 < w2" using h by (simp_all add: w1_def w2_def)
  have S: "0 < S" unfolding S_def using w m m0 by (intro add_pos_pos divide_pos_pos)
  have d: "whmean_deriv h0 h1 m0 m1 = (w1 + w2) / S"
    using m m0 S by (simp add: whmean_deriv_def Let_def w1_def w2_def S_def sgn_if)
  have "w1 / m0 \<le> w1 / m1" using w m by (intro divide_left_mono mult_pos_pos) simp_all
  then have "m1 * S \<le> m1 * (w1 / m1 + w2 / m1)"
    unfolding S_def using m by (intro mult_left_mono) simp_all
  also have "\<dots> = w1 + w2" using m by (simp add: field_simps)
  finally have lo: "m1 \<le> (w1 + w2) / S" using S by (simp add: pos_le_divide_eq)
  have "w2 / m0 \<le> w2 / m1" using w m by (intro divide_left_mono mult_pos_pos) simp_all
  then have "m0 * (w1 / m0 + w2 / m0) \<le> m0 * S"
    unfolding S_def using m0 by (intro mult_left_mono) simp_all
  moreover have "m0 * (w1 / m0 + w2 / m0) = w1 + w2" using m0 by (simp add: field_simps)
  ultimately have hi: "(w1 + w2) / S \<le> m0" using S by (simp add: pos_divide_le_eq)
  from lo hi show ?thesis unfolding d by simp
qed

lemma hermite_piece_below:
  assumes h: "h \<noteq> 0"
  shows "evaluate_piece (hermite_piece h 0 (h * m) d0 d1) (0 - x0)
     = - x0 * ((x0 / h) ^ 2 * (d0 + d1 - 2 * m) - (x0 / h) * (3 * m - 2 * d0 - d1) + d0)"
  using h
  by (simp add: evaluate_piece_def hermite_piece_def Let_def power2_eq_square power3_eq_cube
      field_simps)

lemma first_piece_negative:
  assumes h: "0 < h0" "0 < h1" and m: "0 < m1" "m1 \<le> m0" and x0: "0 < x0"
    and small: "(x0 / h0 + (x0 / h0) ^ 2) * (m0 - m1) < m0"
  shows "evaluate_piece (hermite_piece h0 0 (h0 * m0) (edge_case h0 h1 m0 m1)
           (whmean_deriv h0 h1 m0 m1)) (0 - x0) < 0"
proof -
  define d0 where "d0 = edge_case h0 h1 m0 m1"
  define d1 where "d1 = whmean_deriv h0 h1 m0 m1"
  define rho where "rho = x0 / h0"
  have rho: "0 < rho" unfolding rho_def using h x0 by simp
  have d0: "m0 \<le> d0" unfolding d0_def using h m by (rule edge_case_ge)
  have d1: "m1 \<le> d1" "d1 \<le> m0"
    unfolding d1_def using whmean_deriv_between[OF h m] by simp_all
  define e0 where "e0 = d0 - m0"
  define e1 where "e1 = m0 - d1"
  have e: "0 \<le> e0" "0 \<le> e1" "e1 \<le> m0 - m1" using d0 d1 by (simp_all add: e0_def e1_def)
  have "(rho + rho ^ 2) * e1 \<le> (rho + rho ^ 2) * (m0 - m1)"
    using e rho by (intro mult_left_mono) simp_all
  with small have s: "(rho + rho ^ 2) * e1 < m0" unfolding rho_def by simp
  have "0 \<le> (rho ^ 2 + 2 * rho + 1) * e0"
    using e rho by (intro mult_nonneg_nonneg add_nonneg_nonneg) simp_all
  with s have "0 < (rho ^ 2 + 2 * rho + 1) * e0 + (m0 - (rho + rho ^ 2) * e1)" by simp
  also have "(rho ^ 2 + 2 * rho + 1) * e0 + (m0 - (rho + rho ^ 2) * e1)
      = rho ^ 2 * (d0 + d1 - 2 * m0) - rho * (3 * m0 - 2 * d0 - d1) + d0"
    unfolding e0_def e1_def by (simp add: algebra_simps)
  finally have B: "0 < rho ^ 2 * (d0 + d1 - 2 * m0) - rho * (3 * m0 - 2 * d0 - d1) + d0" .
  from h have "h0 \<noteq> 0" by simp
  then have "evaluate_piece (hermite_piece h0 0 (h0 * m0) d0 d1) (0 - x0)
     = - x0 * (rho ^ 2 * (d0 + d1 - 2 * m0) - rho * (3 * m0 - 2 * d0 - d1) + d0)"
    unfolding rho_def by (rule hermite_piece_below)
  also have "\<dots> < 0" using x0 B by (simp add: mult_pos_pos)
  finally show ?thesis unfolding d0_def d1_def .
qed

subsection \<open>The baseline comoving distance below the grid\<close>

lemma baseline_small:
  fixes om R z0 :: real
  assumes om: "0 < om" "om \<le> 1" and R: "1 + 6 / 999 \<le> R" "R \<le> 2" and z0: "z0 = 1 / 1000"
  shows "(z0 / (z0 * R - z0) + (z0 / (z0 * R - z0)) ^ 2)
           * (g_lcdm om (z0 * R * R) - g_lcdm om z0) \<le> 1"
    and "g_lcdm om z0 \<le> g_lcdm om (z0 * R * R)"
proof -
  define rho where "rho = z0 / (z0 * R - z0)"
  define z2 where "z2 = z0 * R * R"
  define g0 where "g0 = g_lcdm om z0"
  define g2 where "g2 = g_lcdm om z2"
  from R have R1: "0 < R - 1" "6 / 999 \<le> R - 1" by simp_all
  have rho: "rho = 1 / (R - 1)"
    unfolding rho_def z0 using R1 by (simp add: field_simps)
  have rho_pos: "0 < rho" unfolding rho using R1 by simp
  have "1 / (R - 1) \<le> 1 / (6 / 999)" using R1 by (intro divide_left_mono) simp_all
  then have rho_le: "rho \<le> 999 / 6" unfolding rho by simp
  have rhoR: "rho * (R - 1) = 1" unfolding rho using R1 by simp
  have z0p: "0 < z0" by (simp add: z0)
  have "R * R \<le> 2 * 2" using R by (intro mult_mono) simp_all
  then have z2_le: "z2 \<le> 4 / 1000" unfolding z2_def z0 by simp
  have "1 * 1 \<le> R * R" using R by (intro mult_mono) simp_all
  then have z2_ge: "z0 \<le> z2" unfolding z2_def z0 by simp
  with z0p have z2p: "0 < z2" by simp
  have sq0: "g0 ^ 2 = 1 + om * z0 * (3 + 3 * z0 + z0 ^ 2)"
    unfolding g0_def using om z0p by (intro g_lcdm_sq) simp_all
  have sq2: "g2 ^ 2 = 1 + om * z2 * (3 + 3 * z2 + z2 ^ 2)"
    unfolding g2_def using om z2p by (intro g_lcdm_sq) simp_all
  have g0_1: "1 < g0" unfolding g0_def using om(1) z0p by (rule g_lcdm_gt_1)
  have g2_1: "1 < g2" unfolding g2_def using om(1) z2p by (rule g_lcdm_gt_1)
  define K where "K = 3 + 3 * (z2 + z0) + (z2 ^ 2 + z2 * z0 + z0 ^ 2)"
  have dz: "z2 - z0 = z0 * ((R - 1) * (R + 1))"
    unfolding z2_def by (simp add: algebra_simps)
  have dzp: "0 \<le> z2 - z0" using z2_ge by simp
  have a1: "z2 ^ 2 \<le> (4 / 1000) ^ 2" using z2_le z2p by (intro power_mono) simp_all
  have a2: "z2 * z0 \<le> (4 / 1000) * (1 / 1000)"
    using z2_le z0p unfolding z0 by (intro mult_right_mono) simp_all
  have a3: "z0 ^ 2 = (1 / 1000) ^ 2" "3 * (z2 + z0) \<le> 3 * (4 / 1000 + 1 / 1000)"
    using z2_le by (simp_all add: z0)
  have "K \<le> 3 + 3 * (4 / 1000 + 1 / 1000) + ((4 / 1000) ^ 2 + (4 / 1000) * (1 / 1000) + (1 / 1000) ^ 2)"
    unfolding K_def a3(1) using a1 a2 a3(2) by (intro add_mono) simp_all
  also have "\<dots> \<le> 31 / 10" by (simp add: power2_eq_square)
  finally have K_le: "K \<le> 31 / 10" .
  have K_pos: "0 \<le> K" unfolding K_def using z0p z2p by (intro add_nonneg_nonneg) simp_all
  have dsq: "g2 ^ 2 - g0 ^ 2 = om * ((z2 - z0) * K)"
    unfolding sq0 sq2 K_def by (simp add: power2_eq_square algebra_simps)
  have "0 \<le> om * ((z2 - z0) * K)"
    using om(1) dzp K_pos by (intro mult_nonneg_nonneg) simp_all
  then have "0 \<le> g2 ^ 2 - g0 ^ 2" by (simp only: dsq)
  then have "g0 ^ 2 \<le> g2 ^ 2" by (simp only: diff_ge_0_iff_ge)
  moreover have "0 \<le> g2" using g2_1 by simp
  ultimately have g02: "g0 \<le> g2" by (rule power2_le_imp_le)
  then show "g_lcdm om z0 \<le> g_lcdm om (z0 * R * R)" unfolding g0_def g2_def z2_def .
  have "(g2 - g0) * 2 \<le> (g2 - g0) * (g2 + g0)"
    using g02 g0_1 g2_1 by (intro mult_left_mono) simp_all
  also have "\<dots> = g2 ^ 2 - g0 ^ 2" by (simp add: power2_eq_square algebra_simps)
  also have "\<dots> = (R - 1) * (om * (z0 * ((R + 1) * K)))" unfolding dsq dz by (simp add: mult_ac)
  finally have step1: "(g2 - g0) * 2 \<le> (R - 1) * (om * (z0 * ((R + 1) * K)))" .
  have "(R + 1) * K \<le> 3 * (31 / 10)"
    using R K_le K_pos by (intro mult_mono) simp_all
  then have f1: "z0 * ((R + 1) * K) \<le> (1 / 1000) * (3 * (31 / 10))"
    unfolding z0 by (intro mult_left_mono) simp_all
  have f2: "0 \<le> z0 * ((R + 1) * K)"
    using z0p R K_pos by (intro mult_nonneg_nonneg) simp_all
  have "om * (z0 * ((R + 1) * K)) \<le> 1 * ((1 / 1000) * (3 * (31 / 10)))"
    by (rule mult_mono[OF om(2) f1 _ f2]) simp
  then have "(R - 1) * (om * (z0 * ((R + 1) * K))) \<le> (R - 1) * (93 / 10000)"
    using R1 by (intro mult_left_mono) simp_all
  with step1 have "(g2 - g0) * 2 \<le> (R - 1) * (93 / 10000)" by (rule order_trans)
  then have gd: "g2 - g0 \<le> (R - 1) * (93 / 20000)" by simp
  have "(rho + rho ^ 2) * (g2 - g0) \<le> (rho + rho ^ 2) * ((R - 1) * (93 / 20000))"
    using gd rho_pos by (intro mult_left_mono) simp_all
  also have "\<dots> = (rho * (R - 1)) * (1 + rho) * (93 / 20000)"
    by (simp add: power2_eq_square algebra_simps)
  also have "\<dots> = (1 + rho) * (93 / 20000)" unfolding rhoR by simp
  also have "\<dots> \<le> (1 + 999 / 6) * (93 / 20000)"
    using rho_le by (intro mult_right_mono) simp_all
  also have "\<dots> \<le> 1" by simp
  finally show "(z0 / (z0 * R - z0) + (z0 / (z0 * R - z0)) ^ 2)
           * (g_lcdm om (z0 * R * R) - g_lcdm om z0) \<le> 1"
    unfolding rho_def g0_def g2_def z2_def .
qed

lemma nth_trapezoid_steps_r:
  "length y = length x \<Longrightarrow> Suc i < length x \<Longrightarrow>
     trapezoid_steps_r x y ! i = (x ! Suc i - x ! i) * (y ! Suc i + y ! i) / 2"
proof (induction x y arbitrary: i rule: trapezoid_steps_r.induct)
  case (1 x0 x1 xs y0 y1 ys)
  then show ?case by (cases i) simp_all
qed simp_all

lemma nth_cumsum_r_Suc:
  "i < length ts \<Longrightarrow> (acc # cumsum_r acc ts) ! Suc i = (acc # cumsum_r acc ts) ! i + ts ! i"
proof (induction ts arbitrary: acc i)
  case (Cons t ts)
  then show ?case by (cases i) simp_all
qed simp

lemma nth_dc_table_Suc:
  assumes wf: "wf_data d" and i: "Suc i < length (z_grid d)"
  shows "dc_table h0 om d w0' wa' xi' ! Suc i =
     dc_table h0 om d w0' wa' xi' ! i
       + (z_grid d ! Suc i - z_grid d ! i)
         * (1 / hz_r h0 om w0' wa' xi' (a_grid d ! Suc i) + 1 / hz_r h0 om w0' wa' xi' (a_grid d ! i)) / 2"
proof -
  let ?inv = "map (\<lambda>a. 1 / hz_r h0 om w0' wa' xi' a) (a_grid d)"
  from wf have l: "length ?inv = length (z_grid d)" by (simp add: wf_data_def)
  with i have "i < length (trapezoid_steps_r (z_grid d) ?inv)"
    by (simp add: length_trapezoid_steps_r)
  then have "dc_table h0 om d w0' wa' xi' ! Suc i =
      dc_table h0 om d w0' wa' xi' ! i + trapezoid_steps_r (z_grid d) ?inv ! i"
    unfolding dc_table_def by (rule nth_cumsum_r_Suc)
  also have "trapezoid_steps_r (z_grid d) ?inv ! i
      = (z_grid d ! Suc i - z_grid d ! i) * (?inv ! Suc i + ?inv ! i) / 2"
    using l i by (intro nth_trapezoid_steps_r) simp_all
  also have "?inv ! Suc i = 1 / hz_r h0 om w0' wa' xi' (a_grid d ! Suc i)"
    using l i by simp
  also have "?inv ! i = 1 / hz_r h0 om w0' wa' xi' (a_grid d ! i)"
    using l i by simp
  finally show ?thesis .
qed

lemma find_derivatives_first:
  assumes l: "length y = length x" "3 \<le> length x"
  shows "find_derivatives x y ! 0 =
           edge_case (x ! 1 - x ! 0) (x ! 2 - x ! 1)
             ((y ! 1 - y ! 0) / (x ! 1 - x ! 0)) ((y ! 2 - y ! 1) / (x ! 2 - x ! 1))"
    and "find_derivatives x y ! 1 =
           whmean_deriv (x ! 1 - x ! 0) (x ! 2 - x ! 1)
             ((y ! 1 - y ! 0) / (x ! 1 - x ! 0)) ((y ! 2 - y ! 1) / (x ! 2 - x ! 1))"
proof -
  define hk where "hk = diff x"
  define mk where "mk = map2 (\<lambda>dy h. dy / h) (diff y) hk"
  from l have ne2: "length y \<noteq> 2" by simp
  have lh: "length hk = length x - 1" "length mk = length x - 1"
    using l by (simp_all add: hk_def mk_def)
  have h: "hk ! 0 = x ! 1 - x ! 0" "hk ! 1 = x ! 2 - x ! 1"
    using l by (simp_all add: hk_def nth_diff numeral_2_eq_2)
  have m: "mk ! 0 = (y ! 1 - y ! 0) / (x ! 1 - x ! 0)" "mk ! 1 = (y ! 2 - y ! 1) / (x ! 2 - x ! 1)"
    unfolding mk_def hk_def using l nth_slopes[of y x 0] nth_slopes[of y x 1]
    by (simp_all add: numeral_2_eq_2)
  have fd: "find_derivatives x y = edge_case (hk ! 0) (hk ! 1) (mk ! 0) (mk ! 1)
      # interior_derivatives hk mk
      @ [edge_case (rev hk ! 0) (rev hk ! 1) (rev mk ! 0) (rev mk ! 1)]"
    using ne2 by (simp add: find_derivatives_def Let_def hk_def mk_def)
  show "find_derivatives x y ! 0 =
           edge_case (x ! 1 - x ! 0) (x ! 2 - x ! 1)
             ((y ! 1 - y ! 0) / (x ! 1 - x ! 0)) ((y ! 2 - y ! 1) / (x ! 2 - x ! 1))"
    unfolding fd h m by simp
  have li: "0 < length (interior_derivatives hk mk)"
    using lh l by (simp add: length_interior_derivatives)
  have "interior_derivatives hk mk ! 0 = whmean_deriv (hk ! 0) (hk ! Suc 0) (mk ! 0) (mk ! Suc 0)"
    using lh l by (intro nth_interior_derivatives) simp_all
  with li show "find_derivatives x y ! 1 =
           whmean_deriv (x ! 1 - x ! 0) (x ! 2 - x ! 1)
             ((y ! 1 - y ! 0) / (x ! 1 - x ! 0)) ((y ! 2 - y ! 1) / (x ! 2 - x ! 1))"
    unfolding fd using h m by (simp add: nth_append)
qed

lemma small_from_g:
  fixes H g0 g1 g2 C :: real
  assumes H: "0 < H" and g: "0 < g0" "0 < g1" "1 \<le> g2" and C: "C * (g2 - g0) \<le> 1"
  shows "C * ((1 / (H * g1) + 1 / (H * g0)) / 2 - (1 / (H * g2) + 1 / (H * g1)) / 2)
           < (1 / (H * g1) + 1 / (H * g0)) / 2"
proof -
  from g have g2: "0 < g2" by simp
  have p: "0 < H * g0 * g2" using H g g2 by (intro mult_pos_pos)
  have "1 / (H * g0) - 1 / (H * g2) = (g2 - g0) / (H * g0 * g2)"
    using H g g2 by (simp add: field_simps)
  then have "C * (1 / (H * g0) - 1 / (H * g2)) = (C * (g2 - g0)) / (H * g0 * g2)"
    by simp
  also have "\<dots> \<le> 1 / (H * g0 * g2)"
    using C p by (intro divide_right_mono) simp_all
  also have "\<dots> \<le> 1 / (H * g0 * 1)"
    using H g by (intro divide_left_mono mult_left_mono mult_pos_pos) simp_all
  finally have a: "C * (1 / (H * g0) - 1 / (H * g2)) \<le> 1 / (H * g0)" by simp
  have b: "0 < 1 / (H * g1)" using H g by simp
  have "C * ((1 / (H * g1) + 1 / (H * g0)) / 2 - (1 / (H * g2) + 1 / (H * g1)) / 2)
      = C * (1 / (H * g0) - 1 / (H * g2)) / 2"
    by (simp add: algebra_simps diff_divide_distrib add_divide_distrib)
  also have "\<dots> \<le> (1 / (H * g0)) / 2" using a by simp
  also have "\<dots> < (1 / (H * g1) + 1 / (H * g0)) / 2" using b by simp
  finally show ?thesis .
qed

lemma baseline_Dc_at_zero:
  assumes om: "0 < om" "om < 1" and H: "0 < h0"
  shows "\<exists>dc. Dc (engine h0 om data (- 1) 0 0) 0 = Some dc \<and> dc < 0"
proof -
  define x where "x = z_grid data"
  define y where "y = dc_table h0 om data (- 1) 0 0"
  define R where "R = grid_ratio"
  define z0 where "z0 = (1 / 1000 :: real)"
  define g where "g i = g_lcdm om (zf i)" for i
  define u where "u i = 1 / (h0 * g i)" for i
  define m0 where "m0 = (u (Suc 0) + u 0) / 2"
  define m1 where "m1 = (u (Suc (Suc 0)) + u (Suc 0)) / 2"
  have ok: "grid_ok h0 om data (- 1) 0 0" using om H by (intro grid_ok_valid) simp_all
  have lx: "length x = 1000" "length y = length x"
    using wf_data_data by (simp_all add: x_def y_def length_z_grid_data length_dc_table)
  have sx: "sorted_wrt (<) x" unfolding x_def by (rule z_grid_sorted)
  have R: "1 + 6 / 999 \<le> R" "R \<le> 2"
    unfolding R_def by (rule grid_ratio_lower, rule grid_ratio_upper)
  have x0: "x ! 0 = z0" by (simp add: x_def z0_def nth_z_grid_data zf_0)
  have zf1: "zf (Suc 0) = z0 * R" using zf_Suc[of 0] by (simp add: zf_0 z0_def R_def)
  have zf2: "zf (Suc (Suc 0)) = z0 * R * R" using zf_Suc[of "Suc 0"] zf1 by (simp add: R_def)
  have x1: "x ! Suc 0 = z0 * R" by (simp add: x_def nth_z_grid_data zf1)
  have x2: "x ! Suc (Suc 0) = z0 * R * R" by (simp add: x_def nth_z_grid_data zf2)
  have z0p: "0 < z0" by (simp add: z0_def)
  have h0p: "0 < z0 * R - z0" using R z0p by (simp add: z0_def)
  then have h0n: "z0 * R - z0 \<noteq> 0" by (rule less_imp_neq[THEN not_sym])
  have "z0 * R * 1 < z0 * R * R" using R z0p by (intro mult_strict_left_mono mult_pos_pos) simp_all
  then have h1p: "0 < z0 * R * R - z0 * R" by simp
  then have h1n: "z0 * R * R - z0 * R \<noteq> 0" by (rule less_imp_neq[THEN not_sym])
  \<comment> \<open>the Hubble rate and its inverse at the first three grid points\<close>
  have hz: "hz_r h0 om (- 1) 0 0 (a_grid data ! i) = h0 * g i" if "i < 1000" for i
    using that zf_pos[of i] by (simp add: nth_a_grid_data g_def hz_r_baseline_z)
  have gp: "1 < g i" for i unfolding g_def using om(1) zf_pos by (rule g_lcdm_gt_1)
  have up: "0 < u i" for i unfolding u_def using H gp[of i] by simp
  have y0: "y ! 0 = 0" by (simp add: y_def dc_table_0)
  have "y ! Suc 0 = y ! 0 + (x ! Suc 0 - x ! 0)
      * (1 / hz_r h0 om (- 1) 0 0 (a_grid data ! Suc 0) + 1 / hz_r h0 om (- 1) 0 0 (a_grid data ! 0)) / 2"
    unfolding x_def y_def using wf_data_data by (rule nth_dc_table_Suc) (simp add: length_z_grid_data)
  then have y1: "y ! Suc 0 = (z0 * R - z0) * m0"
    by (simp add: hz x0 x1 y0 m0_def u_def)
  have "y ! Suc (Suc 0) = y ! Suc 0 + (x ! Suc (Suc 0) - x ! Suc 0)
      * (1 / hz_r h0 om (- 1) 0 0 (a_grid data ! Suc (Suc 0))
         + 1 / hz_r h0 om (- 1) 0 0 (a_grid data ! Suc 0)) / 2"
    unfolding x_def y_def using wf_data_data by (rule nth_dc_table_Suc) (simp add: length_z_grid_data)
  then have y2: "y ! Suc (Suc 0) = y ! Suc 0 + (z0 * R * R - z0 * R) * m1"
    by (simp add: hz x1 x2 m1_def u_def)
  have s0: "(y ! Suc 0 - y ! 0) / (x ! Suc 0 - x ! 0) = m0"
    unfolding y0 y1 x0 x1 diff_zero
    using h0n by (rule nonzero_mult_div_cancel_left)
  have s1: "(y ! Suc (Suc 0) - y ! Suc 0) / (x ! Suc (Suc 0) - x ! Suc 0) = m1"
    unfolding y2 x1 x2 add_diff_cancel_left'
    using h1n by (rule nonzero_mult_div_cancel_left)
  \<comment> \<open>the first piece\<close>
  have fi: "find_interval x 0 = 0"
    using sx by (rule find_interval_between) (use lx x1 z0p R in \<open>simp_all add: mult_pos_pos\<close>)
  have piece: "hermite_coefficients x y (find_derivatives x y) ! 0 =
      hermite_piece (z0 * R - z0) 0 ((z0 * R - z0) * m0)
        (edge_case (z0 * R - z0) (z0 * R * R - z0 * R) m0 m1)
        (whmean_deriv (z0 * R - z0) (z0 * R * R - z0 * R) m0 m1)"
  proof -
    have "hermite_coefficients x y (find_derivatives x y) ! 0 =
       hermite_piece (x ! Suc 0 - x ! 0) (y ! 0) (y ! Suc 0)
         (find_derivatives x y ! 0) (find_derivatives x y ! Suc 0)"
      using lx by (intro nth_hermite_piece) simp_all
    moreover have "find_derivatives x y ! 0 =
           edge_case (x ! Suc 0 - x ! 0) (x ! Suc (Suc 0) - x ! Suc 0)
             ((y ! Suc 0 - y ! 0) / (x ! Suc 0 - x ! 0))
             ((y ! Suc (Suc 0) - y ! Suc 0) / (x ! Suc (Suc 0) - x ! Suc 0))"
      using find_derivatives_first(1)[of y x] lx by (simp add: numeral_2_eq_2)
    moreover have "find_derivatives x y ! Suc 0 =
           whmean_deriv (x ! Suc 0 - x ! 0) (x ! Suc (Suc 0) - x ! Suc 0)
             ((y ! Suc 0 - y ! 0) / (x ! Suc 0 - x ! 0))
             ((y ! Suc (Suc 0) - y ! Suc 0) / (x ! Suc (Suc 0) - x ! Suc 0))"
      using find_derivatives_first(2)[of y x] lx by (simp add: numeral_2_eq_2)
    ultimately show ?thesis
      unfolding s0 s1 by (simp only: x0 x1 x2 y0 y1)
  qed
  have call: "Dc (engine h0 om data (- 1) 0 0) 0 =
      Some (evaluate_piece (hermite_piece (z0 * R - z0) 0 ((z0 * R - z0) * m0)
        (edge_case (z0 * R - z0) (z0 * R * R - z0 * R) m0 m1)
        (whmean_deriv (z0 * R - z0) (z0 * R * R - z0 * R) m0 m1)) (0 - z0))"
    unfolding Dc_engine x_def[symmetric] y_def[symmetric] ppoly_call_pchip fi piece x0 ..
  \<comment> \<open>the slopes\<close>
  have om1: "om \<le> 1" using om by simp
  have bs: "(z0 / (z0 * R - z0) + (z0 / (z0 * R - z0)) ^ 2) * (g (Suc (Suc 0)) - g 0) \<le> 1"
    "g 0 \<le> g (Suc (Suc 0))"
    using baseline_small[OF om(1) om1 R z0_def] by (simp_all add: g_def zf2 zf_0 z0_def)
  have "u (Suc (Suc 0)) \<le> u 0"
    unfolding u_def using bs(2) H gp[of 0]
    by (intro divide_left_mono mult_left_mono mult_pos_pos) simp_all
  then have m10: "m1 \<le> m0" by (simp add: m0_def m1_def)
  have m1p: "0 < m1" unfolding m1_def using up[of "Suc 0"] up[of "Suc (Suc 0)"] by simp
  have small: "(z0 / (z0 * R - z0) + (z0 / (z0 * R - z0)) ^ 2) * (m0 - m1) < m0"
    unfolding m0_def m1_def u_def
    using H _ _ _ bs(1) by (rule small_from_g) (use gp[of 0] gp[of "Suc 0"] gp[of "Suc (Suc 0)"] in simp_all)
  have "evaluate_piece (hermite_piece (z0 * R - z0) 0 ((z0 * R - z0) * m0)
        (edge_case (z0 * R - z0) (z0 * R * R - z0 * R) m0 m1)
        (whmean_deriv (z0 * R - z0) (z0 * R * R - z0 * R) m0 m1)) (0 - z0) < 0"
    using h0p h1p m1p m10 z0p small by (rule first_piece_negative)
  with call show ?thesis by simp
qed

lemma cumulative_trapezoid_engine:
  assumes wf: "wf_data d" and ok: "grid_ok h0 om d w0' wa' xi'"
  shows "cumulative_trapezoid (map (np_div (Some 1)) (hz_grid (engine h0 om d w0' wa' xi')))
           (z_grid d) = Inr (map Some (dc_table h0 om d w0' wa' xi'))"
proof -
  let ?inv = "map (\<lambda>a. 1 / hz_r h0 om w0' wa' xi' a) (a_grid d)"
  have "map (np_div (Some 1)) (hz_grid (engine h0 om d w0' wa' xi')) = map Some ?inv"
    using ok by (auto simp: engine_def grid_ok_def list_all_iff hz_r_nonzero)
  moreover have "cumulative_trapezoid (map Some ?inv) (z_grid d)
              = Inr (map Some (dc_table h0 om d w0' wa' xi'))"
    using wf
    by (auto simp: cumulative_trapezoid_def dc_table_def wf_data_def
        trapezoid_steps_Some cumsum_Some simp del: map_map)
  ultimately show ?thesis by simp
qed

text \<open>
  Claim C5, as amended.  For every valid parameter combination of moderate size
  (\<open>0 < Om < 1\<close>, \<open>1e-100 \<le> H0 \<le> 1e100\<close>, \<open>w0\<close>, \<open>wa\<close>, \<open>xi\<close> of magnitude at most 10)
  the engine is constructed and, in real arithmetic: the comoving-distance table, the
  cumulative trapezoid integral of \<open>1/H\<close> over the grid, has first entry 0 and
  non-decreasing entries; the interpolant returns the table entries at the grid points, so
  it is exactly 0 at the first grid point \<open>z = 1/1000\<close>, where the table is anchored; and
  between the first and the last grid point \<open>Dc\<close> is non-decreasing in \<open>z\<close>.
\<close>

theorem comoving_distance_monotone:
  assumes "moderate h0 om w0' wa' xi'"
  shows "\<exists>m t. BaseModel_init h0 om data w0' wa' xi' = Inr m
     \<and> cumulative_trapezoid (map (np_div (Some 1)) (hz_grid m)) (z_grid data) = Inr (map Some t)
     \<and> t ! 0 = 0 \<and> sorted t
     \<and> (\<forall>i. i < length (z_grid data) \<longrightarrow> Dc m (z_grid data ! i) = Some (t ! i))
     \<and> Dc m (1 / 1000) = Some 0
     \<and> (\<forall>z z'. 1 / 1000 \<le> z \<and> z \<le> z' \<and> z' \<le> 5 \<longrightarrow>
           (\<exists>dc dc'. Dc m z = Some dc \<and> Dc m z' = Some dc' \<and> dc \<le> dc'))"
proof -
  let ?m = "engine h0 om data w0' wa' xi'"
  let ?t = "dc_table h0 om data w0' wa' xi'"
  from assms have ok: "grid_ok h0 om data w0' wa' xi'" and h: "0 < h0"
    by (rule moderate_valid)+
  then have init: "BaseModel_init h0 om data w0' wa' xi' = Inr ?m" by (simp add: init_data)
  have ct: "cumulative_trapezoid (map (np_div (Some 1)) (hz_grid ?m)) (z_grid data)
      = Inr (map Some ?t)"
    using wf_data_data ok by (rule cumulative_trapezoid_engine)
  have st: "sorted_wrt (<) ?t" using wf_data_data ok h by (rule dc_table_sorted)
  then have sorted: "sorted ?t" by (rule strict_sorted_imp_sorted)
  have nodes: "\<forall>i. i < length (z_grid data) \<longrightarrow> Dc ?m (z_grid data ! i) = Some (?t ! i)"
    using wf_data_data by (simp add: Dc_node)
  have z0: "z_grid data ! 0 = 1 / 1000" by (simp add: nth_z_grid_data zf_0)
  have zl: "z_grid data ! (length (z_grid data) - 1) = 5"
    by (simp add: length_z_grid_data nth_z_grid_data zf_last)
  have first: "Dc ?m (1 / 1000) = Some 0"
    using nodes[rule_format, of 0] by (simp add: length_z_grid_data z0 dc_table_0)
  have mono: "\<exists>dc dc'. Dc ?m z = Some dc \<and> Dc ?m z' = Some dc' \<and> dc \<le> dc'"
    if "1 / 1000 \<le> z \<and> z \<le> z' \<and> z' \<le> 5" for z z'
  proof -
    from that have b: "z_grid data ! 0 \<le> z" "z \<le> z'"
      "z' \<le> z_grid data ! (length (z_grid data) - 1)"
      unfolding z0 zl by simp_all
    have l: "length ?t = length (z_grid data)" "2 \<le> length (z_grid data)"
      using wf_data_data by (simp_all add: length_dc_table wf_data_def)
    show ?thesis
      unfolding Dc_engine using z_grid_sorted sorted l b by (rule pchip_mono)
  qed
  from init ct sorted nodes first mono show ?thesis
    by (intro exI[of _ ?m] exI[of _ ?t]) (simp add: dc_table_0)
qed

theorem comoving_distance_monotone_witness:
  "moderate lcdm_H0 lcdm_Om (- 1) 0 0
   \<and> (\<exists>m. BaseModel_init lcdm_H0 lcdm_Om data (- 1) 0 0 = Inr m
         \<and> Dc m (1 / 1000) = Some 0
         \<and> (\<exists>dc dc'. Dc m (1 / 2) = Some dc \<and> Dc m 2 = Some dc' \<and> dc \<le> dc'))"
proof -
  from comoving_distance_monotone[OF moderate_lcdm] obtain m where
    m: "BaseModel_init lcdm_H0 lcdm_Om data (- 1) 0 0 = Inr m" "Dc m (1 / 1000) = Some 0"
    "\<forall>z z'. 1 / 1000 \<le> z \<and> z \<le> z' \<and> z' \<le> 5 \<longrightarrow>
           (\<exists>dc dc'. Dc m z = Some dc \<and> Dc m z' = Some dc' \<and> dc \<le> dc')"
    by blast
  from m(3)[rule_format, of "1 / 2" 2]
  have "\<exists>dc dc'. Dc m (1 / 2) = Some dc \<and> Dc m 2 = Some dc' \<and> dc \<le> dc'" by simp
  with moderate_lcdm m(1,2) show ?thesis by blast
qed

text \<open>
  Claim C5 as stated fails in its second part: the table is anchored at the first grid
  point, and at \<open>z = 0\<close> the best-fit baseline engine returns the value of the first
  cubic piece extended below the grid, which is negative, not 0.
\<close>

theorem Dc_at_zero_counterexample:
  "0 < lcdm_Om \<and> lcdm_Om < 1 \<and> 0 < lcdm_H0
   \<and> BaseModel_init lcdm_H0 lcdm_Om data (- 1) 0 0
       = Inr (engine lcdm_H0 lcdm_Om data (- 1) 0 0)
   \<and> Dc (engine lcdm_H0 lcdm_Om data (- 1) 0 0) 0 \<noteq> Some 0"
proof -
  have p: "0 < lcdm_Om" "lcdm_Om < 1" "0 < lcdm_H0"
    by (simp_all add: lcdm_Om_def lcdm_H0_def)
  from baseline_Dc_at_zero[OF p] have "Dc (engine lcdm_H0 lcdm_Om data (- 1) 0 0) 0 \<noteq> Some 0"
    by auto
  with p baseline_init show ?thesis by simp
qed

end
